theory Spec2Isabelle
  imports Complex_Main
begin

section \<open>Conventions\<close>

text \<open>
  The DSP core of \<^verbatim>\<open>Combined.py\<close> (lines 216--557) is embedded function by function.
  Python and numpy floating-point numbers are modelled as mathematical reals, so rounding,
  NaN and the infinities are outside the model of the engines; numpy arrays are lists; every
  place where the Python raises is a branch that returns \<open>Inl\<close> of the exception. The last
  section reads the recording from its bytes, where a sample may be a NaN or an infinity, and
  follows such samples through the signal conditioner.
\<close>

datatype py_error = ValueError | IndexError | ZeroDivisionError | KeyError string

text \<open>Sequencing of computations that may raise.\<close>

definition bind_e :: "py_error + 'a \<Rightarrow> ('a \<Rightarrow> py_error + 'b) \<Rightarrow> py_error + 'b" where
  "bind_e m k = (case m of Inl e \<Rightarrow> Inl e | Inr x \<Rightarrow> k x)"

text \<open>Python's \<^verbatim>\<open>int(x)\<close> on a float truncates toward zero.\<close>

definition py_int :: "real \<Rightarrow> int" where
  "py_int x = (if 0 \<le> x then \<lfloor>x\<rfloor> else \<lceil>x\<rceil>)"

text \<open>
  The rounding that the specification of the framing names, read as the \<^verbatim>\<open>round\<close> of the
  language of the repository: the nearest integer, a tie going to the even neighbour. The
  code itself converts with \<^verbatim>\<open>int\<close>; this function only serves to compare the two.
\<close>

definition py_round :: "real \<Rightarrow> int" where
  "py_round x =
     (let f = \<lfloor>x\<rfloor>
      in if x - real_of_int f < 1 / 2 then f
         else if 1 / 2 < x - real_of_int f then f + 1
         else if even f then f else f + 1)"

section \<open>Constants\<close>

definition SR :: int where "SR = 22050"
definition FRAME_MS :: int where "FRAME_MS = 25"
definition HOP_MS :: int where "HOP_MS = 10"
definition FRAME_N :: nat where "FRAME_N = nat (py_int (real_of_int (SR * FRAME_MS) / 1000))"
definition HOP_N :: nat where "HOP_N = nat (py_int (real_of_int (SR * HOP_MS) / 1000))"
definition N_MFCC :: nat where "N_MFCC = 13"
definition N_LPC :: nat where "N_LPC = 16"
definition PRE_EMP :: real where "PRE_EMP = 0.97"

section \<open>Signal conditioner\<close>

text \<open>
  \<^verbatim>\<open>np.append(audio[0], audio[1:] - coef * audio[:-1])\<close>; \<^verbatim>\<open>audio[0]\<close> raises
  \<^verbatim>\<open>IndexError\<close> on an empty array.
\<close>

definition pre_emphasis :: "real list \<Rightarrow> real \<Rightarrow> py_error + real list" where
  "pre_emphasis audio coef =
     (case audio of
        [] \<Rightarrow> Inl IndexError
      | x # xs \<Rightarrow> Inr (x # map2 (\<lambda>a b. a - coef * b) xs (butlast audio)))"

text \<open>\<^verbatim>\<open>np.max\<close> of an empty array raises \<^verbatim>\<open>ValueError\<close>.\<close>

definition np_max :: "real list \<Rightarrow> py_error + real" where
  "np_max xs = (if xs = [] then Inl ValueError else Inr (Max (set xs)))"

definition normalize_audio :: "real list \<Rightarrow> py_error + real list" where
  "normalize_audio audio =
     bind_e (np_max (map abs audio)) (\<lambda>peak.
       Inr (map (\<lambda>x. x / (peak + 1 / 10 ^ 9)) audio))"

text \<open>
  \<^verbatim>\<open>frame_signal\<close>: the callers pass the constants \<^verbatim>\<open>FRAME_N\<close> and \<^verbatim>\<open>HOP_N\<close>, so the
  lengths are naturals; \<^verbatim>\<open>//\<close> is floor division and raises on a zero hop. Row \<open>t\<close> of
  \<^verbatim>\<open>audio[idx]\<close> reads the indices \<open>i + hop * t\<close> for \<open>i < frame_len\<close>.
\<close>

definition frame_signal :: "real list \<Rightarrow> nat \<Rightarrow> nat \<Rightarrow> py_error + real list list" where
  "frame_signal audio frame_len hop =
     (if hop = 0 then Inl ZeroDivisionError
      else
        let n_frames = 1 + (int (length audio) - int frame_len) div int hop
        in if n_frames \<le> 0 then Inr [replicate frame_len 0]
           else Inr (map (\<lambda>t. map (\<lambda>i. audio ! (i + hop * t)) [0..<frame_len])
                         [0..<nat n_frames]))"



section \<open>Indicator synthesizer (\<^verbatim>\<open>sigmoid\<close>, \<^verbatim>\<open>compute_indicators\<close>)\<close>

text \<open>\<^verbatim>\<open>np.clip(x, lo, hi)\<close> is \<^verbatim>\<open>minimum(hi, maximum(x, lo))\<close>.\<close>

definition clip :: "real \<Rightarrow> real \<Rightarrow> real \<Rightarrow> real" where
  "clip x lo hi = min hi (max x lo)"

definition sigmoid :: "real \<Rightarrow> real \<Rightarrow> real \<Rightarrow> real" where
  "sigmoid x center scale = 1 / (1 + exp (- (x - center) / scale))"

text \<open>Python's \<^verbatim>\<open>sub in s\<close> on strings: \<^verbatim>\<open>sub\<close> occurs as a contiguous slice of \<^verbatim>\<open>s\<close>.\<close>

fun starts_with :: "string \<Rightarrow> string \<Rightarrow> bool" where
  "starts_with [] s = True"
| "starts_with (p # ps) [] = False"
| "starts_with (p # ps) (c # cs) = (p = c \<and> starts_with ps cs)"

fun str_in :: "string \<Rightarrow> string \<Rightarrow> bool" where
  "str_in sub [] = (sub = [])"
| "str_in sub (c # cs) = (starts_with sub (c # cs) \<or> str_in sub cs)"

datatype risk = NOMINAL | MONITOR | CAUTION | ALERT

fun risk_rank :: "risk \<Rightarrow> nat" where
  "risk_rank NOMINAL = 0"
| "risk_rank MONITOR = 1"
| "risk_rank CAUTION = 2"
| "risk_rank ALERT = 3"

text \<open>The feature set is a Python dict from feature name to number.\<close>

type_synonym features = "string \<rightharpoonup> real"

record indicators =
  fatigue :: real
  stress :: real
  cognitive :: real
  rt_clarity :: real
  composite :: real
  risk_level :: risk
  confidence :: real
  fat_subs :: "(string \<times> real) list"
  stre_subs :: "(string \<times> real) list"
  cog_subs :: "(string \<times> real) list"
  ind_f0_mean :: real
  ind_f0_std :: real
  ind_f0_slope :: real
  ind_hnr :: real
  ind_jitter :: real
  ind_shimmer_db :: real
  ind_speech_ratio :: real
  ind_pause_rate :: real
  ind_voiced_ratio :: real
  ind_centroid :: real
  ind_lpc_flux :: real
  ind_pause_mean :: real

text \<open>
  The keys read with \<^verbatim>\<open>f[...]\<close>, in the order of their first read; the first one that is
  missing raises \<^verbatim>\<open>KeyError\<close>. \<^verbatim>\<open>mfccD1_mean\<close> and \<^verbatim>\<open>total_dur\<close> are read with
  \<^verbatim>\<open>f.get\<close> and have defaults.
\<close>

definition required_keys :: "string list" where
  "required_keys =
    [''ste_mean'', ''hnr'', ''shimmer_db'', ''f0_range'', ''pause_mean_dur'', ''speech_ratio'',
     ''voiced_ratio'', ''f0_mean'', ''f0_std'', ''jitter_local'', ''flux_mean'', ''ste_std'',
     ''centroid_mean'', ''lpc_flux'', ''pause_rate'', ''voiced_run_std'', ''voiced_run_mean'',
     ''lpc_error_std'', ''flatness_mean'', ''jitter_rap'', ''f0_slope'']"

definition get_or :: "features \<Rightarrow> string \<Rightarrow> real \<Rightarrow> real" where
  "get_or f k d = (case f k of None \<Rightarrow> d | Some v \<Rightarrow> v)"

definition fat_parts :: "features \<Rightarrow> (string \<times> real) list" where
  "fat_parts f =
    [(''vocal_energy'', (1 - clip (the (f ''ste_mean'') * 500) 0 1) * 20),
     (''hnr_breathiness'', (1 - sigmoid (the (f ''hnr'')) 12 4) * 18),
     (''shimmer'', clip (the (f ''shimmer_db'') / 2.5) 0 1 * 16),
     (''pitch_flatness'', (1 - clip (the (f ''f0_range'') / 150) 0 1) * 15),
     (''pause_length'', clip (the (f ''pause_mean_dur'') / 1.2) 0 1 * 15),
     (''speech_rate'', (1 - clip (the (f ''speech_ratio'') / 0.65) 0 1) * 8),
     (''voiced_ratio'', (1 - clip (the (f ''voiced_ratio'') / 0.55) 0 1) * 8)]"

definition stre_parts :: "features \<Rightarrow> real \<Rightarrow> (string \<times> real) list" where
  "stre_parts f f0_center =
    [(''f0_elevation'', sigmoid (the (f ''f0_mean'')) (f0_center + 30) 25 * 22),
     (''f0_variability'', clip (the (f ''f0_std'') / 45) 0 1 * 15),
     (''jitter'', clip (the (f ''jitter_local'') / 0.015) 0 1 * 16),
     (''spectral_flux'', clip (the (f ''flux_mean'') * 4000) 0 1 * 13),
     (''energy_var'', clip (the (f ''ste_std'') * 600) 0 1 * 12),
     (''centroid_hi'', sigmoid (the (f ''centroid_mean'')) 2200 500 * 12),
     (''lpc_flux'', clip (the (f ''lpc_flux'') * 60) 0 1 * 10)]"

definition cog_parts :: "features \<Rightarrow> (string \<times> real) list" where
  "cog_parts f =
    [(''hesitation_rate'', clip (the (f ''pause_rate'') * 2.5) 0 1 * 22),
     (''rhythm_irregular'', clip (the (f ''voiced_run_std'') / 0.45) 0 1 * 18),
     (''short_voiced_runs'', (1 - clip (the (f ''voiced_run_mean'') / 0.7) 0 1) * 15),
     (''lpc_error'', clip (the (f ''lpc_error_std'') * 1200) 0 1 * 14),
     (''spectral_noise'', clip (the (f ''flatness_mean'') * 6) 0 1 * 14),
     (''jitter_rap'', clip (the (f ''jitter_rap'') / 0.012) 0 1 * 10),
     (''mfcc_delta'', clip (\<bar>get_or f ''mfccD1_mean'' 0\<bar> / 4) 0 1 * 7)]"

text \<open>\<^verbatim>\<open>{k: min(v*5,100) for k,v in d.items()}\<close>\<close>

definition subs :: "(string \<times> real) list \<Rightarrow> (string \<times> real) list" where
  "subs d = map (\<lambda>(k, v). (k, min (v * 5) 100)) d"

text \<open>The local variables of \<^verbatim>\<open>compute_indicators\<close>, one definition each.\<close>

definition f0_center :: "string \<Rightarrow> real" where
  "f0_center role = (if str_in ''Male'' role then 140
                     else if str_in ''Female'' role then 200 else 165)"

definition fatigue_of :: "features \<Rightarrow> real" where
  "fatigue_of f = clip (sum_list (map snd (fat_parts f))) 0 100"

definition stress_of :: "features \<Rightarrow> string \<Rightarrow> real" where
  "stress_of f role = clip (sum_list (map snd (stre_parts f (f0_center role)))) 0 100"

definition cognitive_of :: "features \<Rightarrow> real" where
  "cognitive_of f = clip (sum_list (map snd (cog_parts f))) 0 100"

definition clarity_raw :: "features \<Rightarrow> real" where
  "clarity_raw f = sigmoid (the (f ''hnr'')) 10 5 * 35
                   + (1 - clip (the (f ''jitter_local'') / 0.02) 0 1) * 25
                   + clip (the (f ''speech_ratio'') / 0.6) 0 1 * 20
                   + (1 - clip (the (f ''flatness_mean'') * 5) 0 1) * 20"

definition conf_of :: "features \<Rightarrow> real" where
  "conf_of f = clip (the (f ''voiced_ratio'') * get_or f ''total_dur'' 5 / 6) 0.35 1.0"

definition composite_of :: "features \<Rightarrow> string \<Rightarrow> real" where
  "composite_of f role = 0.35 * fatigue_of f + 0.30 * stress_of f role + 0.35 * cognitive_of f"

text \<open>The \<^verbatim>\<open>if/elif\<close> chain of lines 542--545.\<close>

definition risk_of :: "real \<Rightarrow> risk" where
  "risk_of c = (if c < 30 then NOMINAL
                else if c < 50 then MONITOR
                else if c < 70 then CAUTION
                else ALERT)"

definition compute_indicators :: "features \<Rightarrow> string \<Rightarrow> py_error + indicators" where
  "compute_indicators f role =
    (case find (\<lambda>k. f k = None) required_keys of
       Some k \<Rightarrow> Inl (KeyError k)
     | None \<Rightarrow>
         Inr \<lparr> fatigue = fatigue_of f, stress = stress_of f role,
                cognitive = cognitive_of f, rt_clarity = clip (clarity_raw f) 0 100,
                composite = composite_of f role, risk_level = risk_of (composite_of f role),
                confidence = conf_of f * 100,
                fat_subs = subs (fat_parts f),
                stre_subs = subs (stre_parts f (f0_center role)),
                cog_subs = subs (cog_parts f),
                ind_f0_mean = the (f ''f0_mean''), ind_f0_std = the (f ''f0_std''),
                ind_f0_slope = the (f ''f0_slope''), ind_hnr = the (f ''hnr''),
                ind_jitter = the (f ''jitter_local'') * 100,
                ind_shimmer_db = the (f ''shimmer_db''),
                ind_speech_ratio = the (f ''speech_ratio'') * 100,
                ind_pause_rate = the (f ''pause_rate''),
                ind_voiced_ratio = the (f ''voiced_ratio'') * 100,
                ind_centroid = the (f ''centroid_mean''),
                ind_lpc_flux = the (f ''lpc_flux''),
                ind_pause_mean = the (f ''pause_mean_dur'') \<rparr>)"

text \<open>
  Sample feature sets: the four features that drive the fatigue clips are \<open>u\<close>, five of the
  cognitive-load features are \<open>v\<close>, the inputs of the sigmoids and the voiced-run mean
  are 0, and every other key is \<open>w\<close>.
\<close>

definition sample_features :: "real \<Rightarrow> real \<Rightarrow> real \<Rightarrow> features" where
  "sample_features u v w =
     (\<lambda>k. if k \<in> {''ste_mean'', ''f0_range'', ''speech_ratio'', ''voiced_ratio''} then Some u
          else if k \<in> {''pause_rate'', ''voiced_run_std'', ''lpc_error_std'', ''flatness_mean'',
                        ''jitter_rap''} then Some v
          else if k \<in> {''voiced_run_mean'', ''hnr'', ''f0_mean'', ''centroid_mean''} then Some 0
          else Some w)"

section \<open>Windowing and autocorrelation\<close>

text \<open>
  \<^verbatim>\<open>np.hamming(M)\<close>: empty for \<open>M < 1\<close>, \<open>[1]\<close> for \<open>M = 1\<close>, and otherwise
  \<open>0.54 + 0.46 cos (pi n / (M - 1))\<close> for \<open>n = 1 - M, 3 - M, \<dots>, M - 1\<close>.
\<close>

definition hamming :: "nat \<Rightarrow> real list" where
  "hamming M =
     (if M = 0 then []
      else if M = 1 then [1]
      else map (\<lambda>k. 0.54 + 0.46 * cos (pi * (1 - real M + 2 * real k) / (real M - 1))) [0..<M])"

text \<open>\<^verbatim>\<open>frame * np.hamming(len(frame))\<close>\<close>

definition windowed :: "real list \<Rightarrow> real list" where
  "windowed frame = map2 (*) frame (hamming (length frame))"

text \<open>
  Entry \<open>k\<close> of \<^verbatim>\<open>np.correlate(x, x, mode='full')[len(x)-1:]\<close>: the autocorrelation of
  \<open>x\<close> at lag \<open>k\<close>, the sum of \<open>x[n+k] * x[n]\<close> over the overlap.
\<close>

definition acorr :: "real list \<Rightarrow> nat \<Rightarrow> real" where
  "acorr x k = sum_list (map2 (*) (drop k x) x)"

section \<open>Linear predictive engine (\<^verbatim>\<open>compute_lpc\<close>)\<close>

text \<open>
  One pass of the Levinson-Durbin loop body for index \<open>i\<close>. \<^verbatim>\<open>r[i+1]\<close> raises
  \<^verbatim>\<open>IndexError\<close> when \<open>r\<close> is too short; the other reads are inside \<open>a\<close> and inside the
  part of \<open>r\<close> read by the earlier passes.
\<close>

definition lpc_step :: "real list \<Rightarrow> nat \<Rightarrow> real list \<times> real \<Rightarrow> py_error + real list \<times> real" where
  "lpc_step r i st =
     (case st of (a, e) \<Rightarrow>
        if length r \<le> i + 1 then Inl IndexError
        else
          let lam = (- sum_list (map (\<lambda>j. a ! j * r ! (i - j)) [0..<i]) - r ! (i + 1))
                    / (e + 1 / 10 ^ 12);
              a_new = fold (\<lambda>j an. an[j := a ! j + lam * a ! (i - 1 - j)]) [0..<i] (a[i := lam])
          in Inr (a_new, max (e * (1 - lam\<^sup>2)) (1 / 10 ^ 12)))"

fun lpc_loop :: "real list \<Rightarrow> nat list \<Rightarrow> real list \<times> real \<Rightarrow> py_error + real list \<times> real" where
  "lpc_loop r [] st = Inr st"
| "lpc_loop r (i # is) st = bind_e (lpc_step r i st) (lpc_loop r is)"

text \<open>
  \<^verbatim>\<open>np.correlate\<close> raises \<^verbatim>\<open>ValueError\<close> on an empty array. The slice
  \<^verbatim>\<open>r[len(frame)-1:len(frame)+order]\<close> of the full correlation holds the lags from 0 to
  \<open>order\<close>, cut at the last lag \<open>len(frame) - 1\<close>.
\<close>

definition compute_lpc :: "real list \<Rightarrow> nat \<Rightarrow> py_error + real list" where
  "compute_lpc frame order =
     (if frame = [] then Inl ValueError
      else
        let w = windowed frame;
            r = map (acorr w) [0..<min (order + 1) (length w)]
        in if r ! 0 < 1 / 10 ^ 12 then Inr (replicate order 0)
           else bind_e (lpc_loop r [0..<order] (replicate order 0, r ! 0)) (\<lambda>st. Inr (fst st)))"

section \<open>Pitch engine (\<^verbatim>\<open>estimate_f0_frame\<close>, \<^verbatim>\<open>compute_f0_track\<close>)\<close>

text \<open>
  \<^verbatim>\<open>scipy.signal.find_peaks(x, height=0)\<close>. Its scan (\<^verbatim>\<open>_local_maxima_1d\<close>) walks
  \<open>i\<close> from 1 to \<open>len(x) - 2\<close>; where \<open>x[i-1] < x[i]\<close> it runs ahead over the samples equal to
  \<open>x[i]\<close> and, if the sample after them is smaller, records the middle of the plateau and
  continues after it. The \<^verbatim>\<open>height=0\<close> condition keeps the peaks with \<open>x[p] \<ge> 0\<close>.
\<close>

function plateau_end :: "real list \<Rightarrow> nat \<Rightarrow> real \<Rightarrow> nat \<Rightarrow> nat" where
  "plateau_end x i_max v i_ahead =
     (if i_ahead < i_max \<and> x ! i_ahead = v then plateau_end x i_max v (i_ahead + 1)
      else i_ahead)"
  by pat_completeness auto
termination
  by (relation "measure (\<lambda>(x, i_max, v, i_ahead). i_max - i_ahead)") auto

function local_maxima :: "real list \<Rightarrow> nat \<Rightarrow> nat list" where
  "local_maxima x i =
     (if i < length x - 1 then
        (if x ! (i - 1) < x ! i then
           (let i_ahead = plateau_end x (length x - 1) (x ! i) (i + 1)
            in if x ! i_ahead < x ! i
               then ((i + (i_ahead - 1)) div 2) # local_maxima x (i_ahead + 1)
               else local_maxima x (i + 1))
         else local_maxima x (i + 1))
      else [])"
  by pat_completeness auto

lemma plateau_end_ge: "i_ahead \<le> plateau_end x i_max v i_ahead"
proof (induction x i_max v i_ahead rule: plateau_end.induct)
  case (1 x i_max v i_ahead)
  show ?case
  proof (cases "i_ahead < i_max \<and> x ! i_ahead = v")
    case True
    with 1 have "i_ahead + 1 \<le> plateau_end x i_max v (i_ahead + 1)" by simp
    with True show ?thesis by (subst plateau_end.simps) simp
  next
    case False
    then show ?thesis by (subst plateau_end.simps) simp
  qed
qed

termination local_maxima
proof (relation "measure (\<lambda>(x, i). length x - i)")
  fix x :: "real list" and i xa :: nat
  assume "i < length x - 1" and xa: "xa = plateau_end x (length x - 1) (x ! i) (i + 1)"
  have "i + 1 \<le> xa" unfolding xa by (rule plateau_end_ge)
  with \<open>i < length x - 1\<close>
  show "((x, xa + 1), x, i) \<in> measure (\<lambda>(x, i). length x - i)" by simp
qed auto

declare plateau_end.simps [simp del]
declare local_maxima.simps [simp del]

definition find_peaks :: "real list \<Rightarrow> nat list" where
  "find_peaks x = filter (\<lambda>p. 0 \<le> x ! p) (local_maxima x 1)"

text \<open>\<^verbatim>\<open>np.argmax\<close>: the index of the first occurrence of the maximum.\<close>

fun first_index :: "('a \<Rightarrow> bool) \<Rightarrow> 'a list \<Rightarrow> nat" where
  "first_index P [] = 0"
| "first_index P (y # ys) = (if P y then 0 else Suc (first_index P ys))"

definition np_argmax :: "real list \<Rightarrow> nat" where
  "np_argmax ys = first_index (\<lambda>y. y = Max (set ys)) ys"

text \<open>
  The autocorrelation that \<^verbatim>\<open>estimate_f0_frame\<close> searches: the frame is windowed, the
  samples whose magnitude does not exceed 0.3 of the peak are set to 0, and \<^verbatim>\<open>corr\<close> holds
  the lags 0 to \<open>len(frame) - 1\<close>. \<^verbatim>\<open>np.max\<close> raises on an empty frame.
\<close>

definition clipped_corr :: "real list \<Rightarrow> py_error + real list" where
  "clipped_corr frame0 =
     (let frame = windowed frame0
      in bind_e (np_max (map abs frame)) (\<lambda>peak.
           let thresh = 0.3 * peak;
               fc = map (\<lambda>x. if \<bar>x\<bar> > thresh then x else 0) frame
           in Inr (map (acorr fc) [0..<length fc])))"

text \<open>
  The slice \<^verbatim>\<open>corr[lag_min:lag_max]\<close> and the lag
  \<^verbatim>\<open>peaks[np.argmax(corr[lag_min:lag_max][peaks])] + lag_min\<close>.
\<close>

definition lag_segment :: "real list \<Rightarrow> int \<Rightarrow> int \<Rightarrow> real list" where
  "lag_segment corr lag_min lag_max = take (nat lag_max - nat lag_min) (drop (nat lag_min) corr)"

definition best_lag :: "real list \<Rightarrow> nat list \<Rightarrow> int \<Rightarrow> nat" where
  "best_lag seg peaks lag_min = peaks ! np_argmax (map (\<lambda>p. seg ! p) peaks) + nat lag_min"

text \<open>
  \<^verbatim>\<open>sr / f0_max\<close> and \<^verbatim>\<open>sr / f0_min\<close> are Python divisions of ints and raise on a zero
  divisor. Past the guard \<open>lag_min < lag_max \<le> len(corr) - 1\<close>; a negative \<open>lag_min\<close> cannot
  pass it when the two frequencies are positive, so the slice bounds are naturals there.
\<close>

definition estimate_f0_frame :: "real list \<Rightarrow> int \<Rightarrow> int \<Rightarrow> int \<Rightarrow> py_error + real" where
  "estimate_f0_frame frame sr f0_min f0_max =
     bind_e (clipped_corr frame) (\<lambda>corr.
       if f0_max = 0 \<or> f0_min = 0 then Inl ZeroDivisionError
       else
         let lag_min = py_int (real_of_int sr / real_of_int f0_max);
             lag_max = min (py_int (real_of_int sr / real_of_int f0_min)) (int (length corr) - 1)
         in if lag_min \<ge> lag_max \<or> corr ! 0 < 1 / 10 ^ 12 then Inr 0
            else
              let peaks = find_peaks (lag_segment corr lag_min lag_max)
              in if peaks = [] then Inr 0
                 else
                   let best = best_lag (lag_segment corr lag_min lag_max) peaks lag_min
                   in if corr ! best / (corr ! 0 + 1 / 10 ^ 12) \<ge> 0.3
                      then Inr (real_of_int sr / real best)
                      else Inr 0)"

text \<open>A list comprehension over calls that may raise: the first exception wins.\<close>

fun map_e :: "('a \<Rightarrow> py_error + 'b) \<Rightarrow> 'a list \<Rightarrow> py_error + 'b list" where
  "map_e g [] = Inr []"
| "map_e g (x # xs) = bind_e (g x) (\<lambda>y. bind_e (map_e g xs) (\<lambda>ys. Inr (y # ys)))"

definition compute_f0_track :: "real list \<Rightarrow> int \<Rightarrow> py_error + real list" where
  "compute_f0_track audio sr =
     bind_e (frame_signal audio FRAME_N HOP_N) (\<lambda>frames.
       map_e (\<lambda>f. estimate_f0_frame f sr 60 500) frames)"

section \<open>Perturbation measures (\<^verbatim>\<open>compute_jitter_shimmer\<close>)\<close>

text \<open>
  \<^verbatim>\<open>np.mean\<close> and \<^verbatim>\<open>np.diff\<close>. Every \<^verbatim>\<open>np.mean\<close> of the core is taken over a non-empty
  array, or guarded by a test for emptiness.
\<close>

definition mean :: "real list \<Rightarrow> real" where
  "mean xs = sum_list xs / real (length xs)"

definition np_diff :: "real list \<Rightarrow> real list" where
  "np_diff xs = map2 (\<lambda>b a. b - a) (tl xs) xs"

text \<open>
  The dicts returned by the stages are association lists in the order of the source.
  In \<^verbatim>\<open>amps[:len(f0)][f0>0]\<close> the mask has the length of the array, both having one entry per
  frame of the same buffer.
\<close>

definition compute_jitter_shimmer :: "real list \<Rightarrow> int \<Rightarrow> py_error + (string \<times> real) list" where
  "compute_jitter_shimmer audio sr =
     bind_e (compute_f0_track audio sr) (\<lambda>f0.
       let voiced = filter (\<lambda>x. x > 0) f0
       in if length voiced < 4
          then Inr [(''jitter_local'', 0), (''jitter_rap'', 0),
                    (''shimmer_local'', 0), (''shimmer_db'', 0)]
          else
            let periods = map (\<lambda>v. 1 / v) voiced;
                jitter_local = mean (map abs (np_diff periods)) / (mean periods + 1 / 10 ^ 12);
                rap = map (\<lambda>i. \<bar>periods ! i - mean (take 3 (drop (i - 1) periods))\<bar>)
                          [1..<length periods - 1];
                jitter_rap = (if rap \<noteq> [] then mean rap / mean periods else 0)
            in bind_e (frame_signal audio FRAME_N HOP_N) (\<lambda>frames.
                 let amps = map (\<lambda>fr. sqrt (mean (map (\<lambda>x. x\<^sup>2) fr)) + 1 / 10 ^ 12) frames;
                     vamps = map fst (filter (\<lambda>(a, f). f > 0) (zip (take (length f0) amps) f0))
                 in if length vamps < 2
                    then Inr [(''jitter_local'', jitter_local), (''jitter_rap'', jitter_rap),
                              (''shimmer_local'', 0), (''shimmer_db'', 0)]
                    else
                      let sh_local = mean (map abs (np_diff vamps)) / mean vamps
                      in Inr [(''jitter_local'', jitter_local), (''jitter_rap'', jitter_rap),
                              (''shimmer_local'', sh_local),
                              (''shimmer_db'', 20 * log 10 (1 + sh_local + 1 / 10 ^ 12))]))"

section \<open>Spectral and cepstral engine\<close>

text \<open>\<^verbatim>\<open>apply_window\<close>: every row times the Hamming window of the row length.\<close>

definition apply_window :: "real list list \<Rightarrow> real list list" where
  "apply_window frames = map windowed frames"

text \<open>
  \<^verbatim>\<open>np.abs(rfft(frames, n=n_fft, axis=1)) ** 2\<close>: each row is cut or zero-padded to
  \<open>n_fft\<close> samples; bin \<open>k\<close> of the transform, for \<open>k\<close> from 0 to \<open>n_fft div 2\<close>, is the
  sum of \<open>x[j] exp(-2 pi i j k / n_fft)\<close>, and the power is its squared magnitude.
\<close>

definition rfft_power :: "real list \<Rightarrow> nat \<Rightarrow> nat \<Rightarrow> real" where
  "rfft_power x n k =
     (let xp = take n x @ replicate (n - length x) 0
      in (sum_list (map (\<lambda>j. xp ! j * cos (2 * pi * real j * real k / real n)) [0..<n]))\<^sup>2
       + (sum_list (map (\<lambda>j. xp ! j * sin (2 * pi * real j * real k / real n)) [0..<n]))\<^sup>2)"

definition power_spectrum :: "real list list \<Rightarrow> nat \<Rightarrow> real list list" where
  "power_spectrum frames n_fft =
     map (\<lambda>fr. map (rfft_power fr n_fft) [0..<n_fft div 2 + 1]) frames"

definition hz_to_mel :: "real \<Rightarrow> real" where
  "hz_to_mel hz = 2595 * log 10 (1 + hz / 700)"

definition mel_to_hz :: "real \<Rightarrow> real" where
  "mel_to_hz mel = 700 * (10 powr (mel / 2595) - 1)"

text \<open>\<^verbatim>\<open>np.linspace(start, stop, num)\<close> for \<open>num \<ge> 2\<close>.\<close>

definition linspace :: "real \<Rightarrow> real \<Rightarrow> nat \<Rightarrow> real list" where
  "linspace start stop num =
     map (\<lambda>i. start + real i * ((stop - start) / real (num - 1))) [0..<num]"

text \<open>
  An assignment \<^verbatim>\<open>row[k] = v\<close> into a numpy row: a negative index counts from the end, an
  index outside \<open>[-len, len)\<close> raises \<^verbatim>\<open>IndexError\<close>.
\<close>

definition np_set :: "real list \<Rightarrow> int \<Rightarrow> real \<Rightarrow> py_error + real list" where
  "np_set row k v =
     (let n = int (length row); j = (if k < 0 then n + k else k)
      in if 0 \<le> j \<and> j < n then Inr (row[nat j := v]) else Inl IndexError)"

fun set_all :: "real list \<Rightarrow> (int \<times> real) list \<Rightarrow> py_error + real list" where
  "set_all row [] = Inr row"
| "set_all row ((k, v) # kvs) = bind_e (np_set row k v) (\<lambda>row'. set_all row' kvs)"

text \<open>
  Row \<open>m - 1\<close> of the filterbank: the rising slope is written for \<open>k\<close> in
  \<^verbatim>\<open>range(bin_pts[m-1], bin_pts[m])\<close>, then the falling slope for \<open>k\<close> in
  \<^verbatim>\<open>range(bin_pts[m], min(bin_pts[m+1], n_bins))\<close>.
\<close>

definition fbank_row :: "int list \<Rightarrow> nat \<Rightarrow> nat \<Rightarrow> py_error + real list" where
  "fbank_row bin_pts n_bins m =
     (let lo = bin_pts ! (m - 1); mid = bin_pts ! m; hi = bin_pts ! (m + 1)
      in set_all (replicate n_bins 0)
           (map (\<lambda>k. (k, real_of_int (k - lo) / (real_of_int (mid - lo) + 1 / 10 ^ 10)))
                [lo..mid - 1]
            @ map (\<lambda>k. (k, real_of_int (hi - k) / (real_of_int (hi - mid) + 1 / 10 ^ 10)))
                [mid..min hi (int n_bins) - 1]))"

definition mel_bins :: "int \<Rightarrow> nat \<Rightarrow> nat \<Rightarrow> real \<Rightarrow> real \<Rightarrow> int list" where
  "mel_bins sr n_fft n_mels fmin fmax =
     (let mel_pts = linspace (hz_to_mel fmin) (hz_to_mel fmax) (n_mels + 2);
          hz_pts = map mel_to_hz mel_pts
      in map (\<lambda>h. \<lfloor>real (n_fft + 1) * h / real_of_int sr\<rfloor>) hz_pts)"

definition mel_filterbank :: "int \<Rightarrow> nat \<Rightarrow> nat \<Rightarrow> real \<Rightarrow> real \<Rightarrow> py_error + real list list" where
  "mel_filterbank sr n_fft n_mels fmin fmax =
     (let n_bins = n_fft div 2 + 1;
          bin_pts = mel_bins sr n_fft n_mels fmin fmax
      in map_e (fbank_row bin_pts n_bins) [1..<n_mels + 1])"

text \<open>
  \<^verbatim>\<open>_FBANK_CACHE\<close> is a module-level dict, the only state of the core that outlives a call;
  it is passed in and returned. \<^verbatim>\<open>get_fbank\<close> fills the entry of its key on a miss (when
  \<^verbatim>\<open>mel_filterbank\<close> raises, nothing is stored) and returns the entry.
\<close>

type_synonym fbank_cache = "int \<times> nat \<times> nat \<rightharpoonup> real list list"

definition get_fbank ::
  "fbank_cache \<Rightarrow> int \<Rightarrow> nat \<Rightarrow> nat \<Rightarrow> (py_error + real list list) \<times> fbank_cache" where
  "get_fbank cache sr n_fft n_mels =
     (let key = (sr, n_fft, n_mels)
      in case cache key of
           Some fb \<Rightarrow> (Inr fb, cache)
         | None \<Rightarrow>
             (case mel_filterbank sr n_fft n_mels 80 8000 of
                Inl e \<Rightarrow> (Inl e, cache)
              | Inr fb \<Rightarrow> (Inr fb, cache(key \<mapsto> fb))))"

text \<open>
  The frames that \<^verbatim>\<open>compute_mfcc\<close> analyses (its first three lines): the buffer is
  pre-emphasized, framed and windowed.
\<close>

definition mfcc_frames :: "real list \<Rightarrow> py_error + real list list" where
  "mfcc_frames audio =
     bind_e (pre_emphasis audio PRE_EMP) (\<lambda>audio'.
       bind_e (frame_signal audio' FRAME_N HOP_N) (\<lambda>frames. Inr (apply_window frames)))"

text \<open>
  From the power spectrum and the filterbank to the coefficients: \<^verbatim>\<open>np.dot(power, fbank.T)\<close>,
  the floor at 1e-10, the logarithm, and the projection on the cosines; the result has one
  row per coefficient and one column per frame.
\<close>

definition dot :: "real list \<Rightarrow> real list \<Rightarrow> real" where
  "dot xs ys = sum_list (map2 (*) xs ys)"

definition mfcc_of_power :: "real list list \<Rightarrow> real list list \<Rightarrow> nat \<Rightarrow> real list list" where
  "mfcc_of_power pspec fbank n_mfcc =
     (let mel_e = map (\<lambda>p. map (\<lambda>fb. dot p fb) fbank) pspec;
          mel_e' = map (map (\<lambda>v. if v < 1 / 10 ^ 10 then 1 / 10 ^ 10 else v)) mel_e;
          log_me = map (map ln) mel_e';
          n_mels = length fbank;
          dct_mat = map (\<lambda>i. map (\<lambda>k. cos (pi * real i / real n_mels * (real k + 0.5)))
                                  [0..<n_mels]) [0..<n_mfcc]
      in map (\<lambda>d. map (\<lambda>l. dot l d) log_me) dct_mat)"

definition compute_mfcc ::
  "fbank_cache \<Rightarrow> real list \<Rightarrow> int \<Rightarrow> (py_error + real list list) \<times> fbank_cache" where
  "compute_mfcc cache audio sr =
     (case mfcc_frames audio of
        Inl e \<Rightarrow> (Inl e, cache)
      | Inr frames \<Rightarrow>
          (let pspec = power_spectrum frames 512
           in case get_fbank cache sr 512 40 of
                (Inl e, cache') \<Rightarrow> (Inl e, cache')
              | (Inr fbank, cache') \<Rightarrow> (Inr (mfcc_of_power pspec fbank N_MFCC), cache')))"

text \<open>
  \<^verbatim>\<open>delta_features\<close> with \<^verbatim>\<open>width=2\<close>: every row is padded with two copies of its first
  and of its last entry, and the denominator is \<open>2 * (1 + 4)\<close>.
\<close>

definition delta_row :: "real list \<Rightarrow> real list" where
  "delta_row r =
     (let pad = replicate 2 (hd r) @ r @ replicate 2 (last r)
      in map (\<lambda>t. (1 * (pad ! (t + 2 + 1) - pad ! (t + 2 - 1))
                  + 2 * (pad ! (t + 2 + 2) - pad ! (t + 2 - 2))) / 10) [0..<length r])"

definition delta_features :: "real list list \<Rightarrow> real list list" where
  "delta_features feat = map delta_row feat"

section \<open>LPC aggregates (\<^verbatim>\<open>compute_lpc_features\<close>)\<close>

text \<open>\<^verbatim>\<open>np.std\<close>: the square root of the mean squared deviation from the mean.\<close>

definition np_std :: "real list \<Rightarrow> real" where
  "np_std xs = sqrt (mean (map (\<lambda>x. (x - mean xs)\<^sup>2) xs))"

text \<open>\<^verbatim>\<open>lfilter(b, [1], x)\<close>: \<open>y[n]\<close> is the sum of \<open>b[k] * x[n-k]\<close> over \<open>k \<le> n\<close>.\<close>

definition lfilter_fir :: "real list \<Rightarrow> real list \<Rightarrow> real list" where
  "lfilter_fir b x =
     map (\<lambda>n. sum_list (map (\<lambda>k. b ! k * x ! (n - k)) [0..<min (length b) (n + 1)]))
         [0..<length x]"

definition lpc_error :: "real list \<Rightarrow> real list \<Rightarrow> real" where
  "lpc_error frame a = mean (map (\<lambda>v. v\<^sup>2) (lfilter_fir (1 # a) frame))"

text \<open>The Euclidean distance between two consecutive rows.\<close>

definition row_dist :: "real list \<Rightarrow> real list \<Rightarrow> real" where
  "row_dist a' a = sqrt (sum_list (map (\<lambda>d. d\<^sup>2) (map2 (\<lambda>x y. x - y) a' a)))"

definition compute_lpc_features :: "real list \<Rightarrow> py_error + (string \<times> real) list" where
  "compute_lpc_features audio =
     bind_e (frame_signal audio FRAME_N HOP_N) (\<lambda>frames.
       bind_e (map_e (\<lambda>fr. compute_lpc fr N_LPC) frames) (\<lambda>lpc_all.
         let errors = map2 lpc_error frames lpc_all;
             flux = (if length lpc_all > 1
                     then mean (map2 row_dist (tl lpc_all) lpc_all) else 0)
         in Inr [(''lpc_error_mean'', mean errors), (''lpc_error_std'', np_std errors),
                 (''lpc_flux'', flux)]))"

section \<open>Spectral statistics (\<^verbatim>\<open>compute_spectral_features\<close>)\<close>

text \<open>
  \<^verbatim>\<open>np.argmax\<close> of a boolean row: the first index that holds \<^verbatim>\<open>True\<close>, or 0 when none
  does.
\<close>

definition argmax_bool :: "bool list \<Rightarrow> nat" where
  "argmax_bool bs = (if True \<in> set bs then first_index (\<lambda>b. b) bs else 0)"

definition cumsum :: "real list \<Rightarrow> real list" where
  "cumsum xs = map (\<lambda>i. sum_list (take (i + 1) xs)) [0..<length xs]"

definition zcr_of :: "real list \<Rightarrow> real" where
  "zcr_of frame = mean (map abs (np_diff (map sgn frame))) / 2"

definition ste_of :: "real list \<Rightarrow> real" where
  "ste_of frame = mean (map (\<lambda>x. x\<^sup>2) frame)"

definition centroid_of :: "real list \<Rightarrow> real list \<Rightarrow> real" where
  "centroid_of p freqs = dot p freqs / (sum_list p + 1 / 10 ^ 12)"

definition spread_of :: "real list \<Rightarrow> real list \<Rightarrow> real" where
  "spread_of p freqs =
     sqrt (sum_list (map2 (\<lambda>pv fq. pv * (fq - centroid_of p freqs)\<^sup>2) p freqs)
           / (sum_list p + 1 / 10 ^ 12))"

definition rolloff_of :: "real list \<Rightarrow> real list \<Rightarrow> real" where
  "rolloff_of p freqs =
     (let cs = cumsum p in freqs ! argmax_bool (map (\<lambda>c. c \<ge> 0.85 * last cs) cs))"

definition flatness_of :: "real list \<Rightarrow> real" where
  "flatness_of p = exp (mean (map (\<lambda>v. ln (v + 1 / 10 ^ 12)) p)) / (mean p + 1 / 10 ^ 12)"

text \<open>
  \<^verbatim>\<open>rfftfreq(n_fft, 1/sr)\<close>: \<^verbatim>\<open>1/sr\<close> is a Python division and raises on \<open>sr = 0\<close>; the
  frequencies are \<open>k * sr / n_fft\<close>.
\<close>

definition compute_spectral_features :: "real list \<Rightarrow> int \<Rightarrow> py_error + (string \<times> real) list" where
  "compute_spectral_features audio sr =
     bind_e (frame_signal audio FRAME_N HOP_N) (\<lambda>frames.
       if sr = 0 then Inl ZeroDivisionError
       else
         let pspec = power_spectrum (apply_window frames) 512;
             freqs = map (\<lambda>k. real k * real_of_int sr / 512) [0..<512 div 2 + 1];
             centroid = map (\<lambda>p. centroid_of p freqs) pspec;
             spread = map (\<lambda>p. spread_of p freqs) pspec;
             flux = 0 # map2 row_dist (tl pspec) pspec;
             rolloff = map (\<lambda>p. rolloff_of p freqs) pspec;
             flatness = map flatness_of pspec;
             zcr = map zcr_of frames;
             ste = map ste_of frames
         in Inr [(''centroid_mean'', mean centroid), (''centroid_std'', np_std centroid),
                 (''spread_mean'', mean spread), (''flux_mean'', mean flux),
                 (''flux_std'', np_std flux), (''rolloff_mean'', mean rolloff),
                 (''flatness_mean'', mean flatness), (''zcr_mean'', mean zcr),
                 (''zcr_std'', np_std zcr), (''ste_mean'', mean ste),
                 (''ste_std'', np_std ste),
                 (''ste_dynamic'', Max (set ste) / (mean ste + 1 / 10 ^ 12))])"

section \<open>Voice activity and prosody (\<^verbatim>\<open>vad_energy_zcr\<close>, \<^verbatim>\<open>compute_prosody\<close>)\<close>

definition vad_energy_zcr :: "real list \<Rightarrow> int \<Rightarrow> py_error + real list" where
  "vad_energy_zcr audio sr =
     bind_e (frame_signal audio FRAME_N HOP_N) (\<lambda>frames.
       let energy = map ste_of frames;
           zcr = map zcr_of frames;
           nf = nat (max 1 (py_int (0.1 * real_of_int sr / real HOP_N)));
           e_thr = mean (take nf energy) * 5 + 1 / 10 ^ 12;
           z_thr = mean (take nf zcr) * 2 + 0.05
       in Inr (map2 (\<lambda>e z. if e > e_thr \<and> z < z_thr then 1 else 0) energy zcr))"

text \<open>\<^verbatim>\<open>np.where(xs == v)[0]\<close>: the indices that hold \<open>v\<close>.\<close>

definition np_where :: "real list \<Rightarrow> real \<Rightarrow> nat list" where
  "np_where xs v = filter (\<lambda>i. xs ! i = v) [0..<length xs]"

text \<open>
  The loop over \<^verbatim>\<open>enumerate(voiced)\<close> that collects the lengths of the voiced runs; the
  state is \<^verbatim>\<open>(runs, in_run, rs)\<close>.
\<close>

fun runs_loop :: "(nat \<times> real) list \<Rightarrow> nat list \<times> bool \<times> nat \<Rightarrow> nat list \<times> bool \<times> nat" where
  "runs_loop [] st = st"
| "runs_loop ((i, v) # ivs) (runs, in_run, rs) =
     (if v \<noteq> 0 \<and> \<not> in_run then runs_loop ivs (runs, True, i)
      else if v = 0 \<and> in_run then runs_loop ivs (runs @ [i - rs], False, rs)
      else runs_loop ivs (runs, in_run, rs))"

definition voiced_runs :: "real list \<Rightarrow> nat list" where
  "voiced_runs voiced =
     (case runs_loop (zip [0..<length voiced] voiced) ([], False, 0) of
        (runs, in_run, rs) \<Rightarrow> if in_run then runs @ [length voiced - rs] else runs)"

text \<open>
  The pause durations: \<^verbatim>\<open>(pe[:n] - ps[:n]) * HOP_N / sr\<close> is numpy arithmetic and does
  not raise.
\<close>

definition pause_durations :: "real list \<Rightarrow> int \<Rightarrow> real list" where
  "pause_durations voiced sr =
     (let uv = map (\<lambda>v. 1 - v) voiced;
          transitions = np_diff uv;
          ps = np_where transitions 1;
          pe = np_where transitions (- 1)
      in if ps \<noteq> [] \<and> pe \<noteq> []
         then
           let pe' = (if hd pe < hd ps then tl pe else pe);
               n = min (length ps) (length pe')
           in map2 (\<lambda>e s. (real e - real s) * real HOP_N / real_of_int sr) (take n pe') (take n ps)
         else [])"

text \<open>\<^verbatim>\<open>fds = HOP_N/sr\<close> is a Python division and raises on \<open>sr = 0\<close>.\<close>

definition compute_prosody :: "real list \<Rightarrow> int \<Rightarrow> py_error + (string \<times> real) list" where
  "compute_prosody audio sr =
     bind_e (vad_energy_zcr audio sr) (\<lambda>voiced.
       let total = length voiced;
           speech_ratio = sum_list voiced / (real total + 1 / 10 ^ 6);
           pause_dur = pause_durations voiced sr
       in if sr = 0 then Inl ZeroDivisionError
          else
            let fds = real HOP_N / real_of_int sr;
                total_dur = real total * fds;
                runs = map real (voiced_runs voiced)
            in Inr [(''speech_ratio'', speech_ratio),
                    (''pause_count'', real (length pause_dur)),
                    (''pause_rate'', real (length pause_dur) / (total_dur + 1 / 10 ^ 6)),
                    (''pause_mean_dur'', if pause_dur \<noteq> [] then mean pause_dur else 0),
                    (''pause_max_dur'', if pause_dur \<noteq> [] then Max (set pause_dur) else 0),
                    (''pause_total_dur'', sum_list pause_dur),
                    (''voiced_run_mean'', if runs \<noteq> [] then mean runs * fds else 0),
                    (''voiced_run_std'', if runs \<noteq> [] then np_std runs * fds else 0),
                    (''total_dur'', total_dur)])"

section \<open>Harmonic-to-noise ratio (\<^verbatim>\<open>compute_hnr\<close>)\<close>

text \<open>
  The contribution of one frame to \<^verbatim>\<open>hnrs\<close>: nothing when the frame is skipped, one value
  otherwise. \<^verbatim>\<open>np.correlate\<close> raises on an empty frame. Past the two guards the slice
  \<^verbatim>\<open>corr[lmin:lmax]\<close> is not empty, so its \<^verbatim>\<open>np.max\<close> does not raise. Where the
  clipped ratio \<open>r\<close> is 0, \<^verbatim>\<open>np.log10\<close> returns minus infinity without raising; the
  infinity is outside the model, in which that value of the frame is \<open>10 * log 10 0\<close>.
\<close>

definition hnr_frame :: "real list \<Rightarrow> int \<Rightarrow> py_error + real list" where
  "hnr_frame frame0 sr =
     (if frame0 = [] then Inl ValueError
      else
        let frame = windowed frame0;
            corr = map (acorr frame) [0..<length frame]
        in if corr ! 0 < 1 / 10 ^ 12 then Inr []
           else
             let lmin = py_int (real_of_int sr / 500);
                 lmax = min (py_int (real_of_int sr / 60)) (int (length corr) - 1)
             in if lmin \<ge> lmax then Inr []
                else
                  let r = clip (Max (set (lag_segment corr lmin lmax)) / (corr ! 0 + 1 / 10 ^ 12))
                               0 0.9999
                  in Inr [10 * log 10 (r / (1 - r + 1 / 10 ^ 12))])"

definition compute_hnr :: "real list \<Rightarrow> int \<Rightarrow> py_error + real" where
  "compute_hnr audio sr =
     bind_e (frame_signal audio FRAME_N HOP_N) (\<lambda>frames.
       bind_e (map_e (\<lambda>fr. hnr_frame fr sr) frames) (\<lambda>hs.
         let hnrs = concat hs in Inr (if hnrs \<noteq> [] then mean hnrs else 0)))"

section \<open>Feature extraction (\<^verbatim>\<open>extract_all_features\<close>)\<close>

text \<open>
  The slope of \<^verbatim>\<open>np.polyfit(np.arange(len(vf0)), vf0, 1)\<close>: the least-squares line through
  the points \<open>(i, vf0[i])\<close>.
\<close>

definition polyfit_slope :: "real list \<Rightarrow> real" where
  "polyfit_slope ys =
     (let xs = map real [0..<length ys]; xm = mean xs; ym = mean ys
      in sum_list (map2 (\<lambda>x y. (x - xm) * (y - ym)) xs ys)
         / sum_list (map (\<lambda>x. (x - xm)\<^sup>2) xs))"

definition f0_stats :: "real list \<Rightarrow> (string \<times> real) list" where
  "f0_stats f0t =
     (let vf0 = filter (\<lambda>x. x > 0) f0t
      in [(''f0_mean'', if length vf0 > 0 then mean vf0 else 0),
          (''f0_std'', if length vf0 > 0 then np_std vf0 else 0),
          (''f0_range'', if length vf0 > 1 then Max (set vf0) - Min (set vf0) else 0),
          (''f0_slope'', if length vf0 > 2 then polyfit_slope vf0 else 0),
          (''voiced_ratio'', real (length vf0) / (real (length f0t) + 1 / 10 ^ 6))])"

text \<open>The decimal digits of \<open>i + 1\<close> in the f-strings of the MFCC keys.\<close>

definition str_nat :: "nat \<Rightarrow> string" where
  "str_nat n = (if n < 10 then [''0123456789'' ! n]
                else [''0123456789'' ! (n div 10 mod 10), ''0123456789'' ! (n mod 10)])"

definition mfcc_feats ::
  "real list list \<Rightarrow> real list list \<Rightarrow> real list list \<Rightarrow> (string \<times> real) list" where
  "mfcc_feats mfcc mfcc_d mfcc_dd =
     concat (map (\<lambda>i.
       [(''mfcc'' @ str_nat (i + 1) @ ''_mean'', mean (mfcc ! i)),
        (''mfcc'' @ str_nat (i + 1) @ ''_std'', np_std (mfcc ! i)),
        (''mfccD'' @ str_nat (i + 1) @ ''_mean'', mean (mfcc_d ! i)),
        (''mfccDD'' @ str_nat (i + 1) @ ''_mean'', mean (mfcc_dd ! i))]) [0..<N_MFCC])"

text \<open>
  The returned dict: the scalar features in the order of the dict display, and the three
  diagnostic entries \<^verbatim>\<open>_f0_track\<close>, \<^verbatim>\<open>_mfcc\<close> and \<^verbatim>\<open>_sr\<close>, which are not numbers and
  which the synthesizer never reads.
\<close>

record extracted =
  scalars :: "(string \<times> real) list"
  f0_track_out :: "real list"
  mfcc_out :: "real list list"
  sr_out :: int

text \<open>In a dict display a later entry replaces an earlier one with the same key.\<close>

definition feature_dict :: "extracted \<Rightarrow> features" where
  "feature_dict x = map_of (rev (scalars x))"

text \<open>The body of \<^verbatim>\<open>extract_all_features\<close> after \<^verbatim>\<open>compute_mfcc\<close>.\<close>

definition features_from :: "real list \<Rightarrow> int \<Rightarrow> real list list \<Rightarrow> py_error + extracted" where
  "features_from audio sr mfcc =
     (let mfcc_d = delta_features mfcc; mfcc_dd = delta_features mfcc_d
      in bind_e (compute_f0_track audio sr) (\<lambda>f0t.
         bind_e (compute_jitter_shimmer audio sr) (\<lambda>js.
         bind_e (compute_lpc_features audio) (\<lambda>lpc.
         bind_e (compute_spectral_features audio sr) (\<lambda>spec.
         bind_e (compute_prosody audio sr) (\<lambda>pros.
         bind_e (compute_hnr audio sr) (\<lambda>hnr.
           Inr \<lparr> scalars = f0_stats f0t @ js @ lpc @ spec @ pros
                            @ mfcc_feats mfcc mfcc_d mfcc_dd @ [(''hnr'', hnr)],
                  f0_track_out = f0t, mfcc_out = take 5 mfcc, sr_out = sr \<rparr>)))))))"

text \<open>
  The undecorated function; the argument is the sample array that \<^verbatim>\<open>np.frombuffer\<close> reads
  from the bytes. Only \<^verbatim>\<open>compute_mfcc\<close> touches the filterbank cache.
\<close>

definition extract_features_body ::
  "fbank_cache \<Rightarrow> real list \<Rightarrow> int \<Rightarrow> (py_error + extracted) \<times> fbank_cache" where
  "extract_features_body cache audio0 sr =
     (case normalize_audio audio0 of
        Inl e \<Rightarrow> (Inl e, cache)
      | Inr audio \<Rightarrow>
          (case compute_mfcc cache audio sr of
             (Inl e, cache') \<Rightarrow> (Inl e, cache')
           | (Inr mfcc, cache') \<Rightarrow> (features_from audio sr mfcc, cache')))"

text \<open>
  The state that outlives a call: the filterbank cache and the result cache of the
  \<^verbatim>\<open>@st.cache_data\<close> decorator, which stores the value returned for each pair of arguments
  and returns it on the next call with the same arguments; an exception is not stored.
\<close>

record engine_state =
  fbanks :: fbank_cache
  data_cache :: "real list \<times> int \<rightharpoonup> extracted"

definition init_state :: engine_state where
  "init_state = \<lparr> fbanks = Map.empty, data_cache = Map.empty \<rparr>"

definition extract_all_features ::
  "engine_state \<Rightarrow> real list \<Rightarrow> int \<Rightarrow> (py_error + extracted) \<times> engine_state" where
  "extract_all_features st audio sr =
     (case data_cache st (audio, sr) of
        Some x \<Rightarrow> (Inr x, st)
      | None \<Rightarrow>
          (case extract_features_body (fbanks st) audio sr of
             (Inl e, cache') \<Rightarrow> (Inl e, st\<lparr>fbanks := cache'\<rparr>)
           | (Inr x, cache') \<Rightarrow>
               (Inr x, st\<lparr>fbanks := cache',
                           data_cache := (data_cache st)((audio, sr) \<mapsto> x)\<rparr>)))"

text \<open>
  One analysis, as the callers run it:
  \<^verbatim>\<open>feats = extract_all_features(ab, SR); ind = compute_indicators(feats, role)\<close>.
\<close>

definition analyze ::
  "engine_state \<Rightarrow> real list \<Rightarrow> string \<Rightarrow> (py_error + indicators) \<times> engine_state" where
  "analyze st audio role =
     (case extract_all_features st audio SR of
        (Inl e, st') \<Rightarrow> (Inl e, st')
      | (Inr x, st') \<Rightarrow> (compute_indicators (feature_dict x) role, st'))"

text \<open>
  The states in which every cached value is the value its key determines: a cached
  filterbank is what \<^verbatim>\<open>mel_filterbank\<close> returns for the key, a cached result is what the body
  returns for the arguments.
\<close>

definition cache_ok :: "fbank_cache \<Rightarrow> bool" where
  "cache_ok c =
     (\<forall>sr n_fft n_mels fb. c (sr, n_fft, n_mels) = Some fb
        \<longrightarrow> mel_filterbank sr n_fft n_mels 80 8000 = Inr fb)"

definition state_ok :: "engine_state \<Rightarrow> bool" where
  "state_ok st =
     (cache_ok (fbanks st)
      \<and> (\<forall>audio sr x. data_cache st (audio, sr) = Some x
            \<longrightarrow> fst (extract_features_body Map.empty audio sr) = Inr x))"

section \<open>Keys of the stage dicts\<close>






section \<open>The engine on the bytes of a recording\<close>

text \<open>
  \<^verbatim>\<open>extract_all_features\<close> receives the recording as bytes and reads them as float32
  samples; such a sample is a finite number, a NaN or an infinity. Finite samples are reals,
  as everywhere above; rounding, overflow and the sign of zero stay outside the model.
\<close>

datatype f32 = Finite real | NaN | PInf | NInf





fun f_neg :: "f32 \<Rightarrow> f32" where
  "f_neg (Finite r) = Finite (- r)"
| "f_neg NaN = NaN"
| "f_neg PInf = NInf"
| "f_neg NInf = PInf"

fun f_add :: "f32 \<Rightarrow> f32 \<Rightarrow> f32" where
  "f_add (Finite a) (Finite b) = Finite (a + b)"
| "f_add NaN y = NaN"
| "f_add x NaN = NaN"
| "f_add PInf NInf = NaN"
| "f_add NInf PInf = NaN"
| "f_add PInf y = PInf"
| "f_add NInf y = NInf"
| "f_add x PInf = PInf"
| "f_add x NInf = NInf"

definition f_sub :: "f32 \<Rightarrow> f32 \<Rightarrow> f32" where
  "f_sub x y = f_add x (f_neg y)"

text \<open>The infinity with the sign of \<open>r\<close>, zero counting as positive.\<close>

definition inf_of_sign :: "real \<Rightarrow> f32" where
  "inf_of_sign r = (if 0 \<le> r then PInf else NInf)"

fun f_mul :: "f32 \<Rightarrow> f32 \<Rightarrow> f32" where
  "f_mul (Finite a) (Finite b) = Finite (a * b)"
| "f_mul NaN y = NaN"
| "f_mul x NaN = NaN"
| "f_mul (Finite a) PInf = (if a = 0 then NaN else inf_of_sign a)"
| "f_mul (Finite a) NInf = (if a = 0 then NaN else inf_of_sign (- a))"
| "f_mul PInf (Finite b) = (if b = 0 then NaN else inf_of_sign b)"
| "f_mul NInf (Finite b) = (if b = 0 then NaN else inf_of_sign (- b))"
| "f_mul PInf PInf = PInf"
| "f_mul PInf NInf = NInf"
| "f_mul NInf PInf = NInf"
| "f_mul NInf NInf = PInf"




definition pre_emphasis_f :: "f32 list \<Rightarrow> real \<Rightarrow> py_error + f32 list" where
  "pre_emphasis_f audio coef =
     (case audio of
        [] \<Rightarrow> Inl IndexError
      | x # xs \<Rightarrow> Inr (x # map2 (\<lambda>a b. f_sub a (f_mul (Finite coef) b)) xs (butlast audio)))"

definition frame_signal_f :: "f32 list \<Rightarrow> nat \<Rightarrow> nat \<Rightarrow> py_error + f32 list list" where
  "frame_signal_f audio frame_len hop =
     (if hop = 0 then Inl ZeroDivisionError
      else
        let n_frames = 1 + (int (length audio) - int frame_len) div int hop
        in if n_frames \<le> 0 then Inr [replicate frame_len (Finite 0)]
           else Inr (map (\<lambda>t. map (\<lambda>i. audio ! (i + hop * t)) [0..<frame_len])
                         [0..<nat n_frames]))"

text \<open>
  Every engine reads the normalized buffer through \<^verbatim>\<open>frame_signal\<close> only, the cepstral one
  after \<^verbatim>\<open>pre_emphasis\<close>. \<open>frames_finite\<close> holds when every sample that framing reads is
  finite.
\<close>

fun is_finite :: "f32 \<Rightarrow> bool" where
  "is_finite (Finite r) = True"
| "is_finite x = False"

definition frames_finite :: "f32 list \<Rightarrow> bool" where
  "frames_finite audio =
     (case frame_signal_f audio FRAME_N HOP_N of
        Inl e \<Rightarrow> False
      | Inr frames \<Rightarrow> list_all (list_all is_finite) frames)"

text \<open>The finite samples of a buffer as reals; a sample that is not finite is given 0.\<close>

fun real_of_f32 :: "f32 \<Rightarrow> real" where
  "real_of_f32 (Finite r) = r"
| "real_of_f32 x = 0"




section \<open>Properties of the indicator synthesizer\<close>

lemma clip_bounds: "lo \<le> hi \<Longrightarrow> lo \<le> clip x lo hi \<and> clip x lo hi \<le> hi"
  by (simp add: clip_def)

lemma compute_indicators_total:
  assumes "\<forall>k \<in> set required_keys. f k \<noteq> None"
  shows "\<exists>r. compute_indicators f role = Inr r"
proof -
  have "find (\<lambda>k. f k = None) required_keys = None"
    using assms by (simp add: find_None_iff)
  then show ?thesis
    by (simp add: compute_indicators_def)
qed

lemma compute_indicators_fields:
  assumes "compute_indicators f role = Inr r"
  shows "fatigue r = fatigue_of f" "stress r = stress_of f role"
    "cognitive r = cognitive_of f" "rt_clarity r = clip (clarity_raw f) 0 100"
    "composite r = composite_of f role" "risk_level r = risk_of (composite_of f role)"
    "confidence r = conf_of f * 100"
  using assms
  by (simp_all add: compute_indicators_def split: option.splits) auto

lemma composite_of_bounds: "0 \<le> composite_of f role \<and> composite_of f role \<le> 100"
proof -
  have "0 \<le> fatigue_of f \<and> fatigue_of f \<le> 100"
    unfolding fatigue_of_def by (rule clip_bounds) simp
  moreover have "0 \<le> stress_of f role \<and> stress_of f role \<le> 100"
    unfolding stress_of_def by (rule clip_bounds) simp
  moreover have "0 \<le> cognitive_of f \<and> cognitive_of f \<le> 100"
    unfolding cognitive_of_def by (rule clip_bounds) simp
  ultimately show ?thesis
    by (simp add: composite_of_def)
qed

lemma risk_of_mono: "c \<le> d \<Longrightarrow> risk_rank (risk_of c) \<le> risk_rank (risk_of d)"
  by (simp add: risk_of_def)

lemma sigmoid_range: "0 < sigmoid x c s \<and> sigmoid x c s < 1"
proof -
  have "0 < exp (- (x - c) / s)" by simp
  then show ?thesis unfolding sigmoid_def by (simp add: field_simps add_pos_pos)
qed

text \<open>
  C1: whenever the synthesizer produces an indicator record, the four sub-scores and the
  composite lie in [0,100], the confidence lies in [35,100], and the risk level is the value
  at the composite of a step function that never decreases and changes at 30, 50 and 70.
\<close>
theorem indicators_in_range:
  assumes "compute_indicators f role = Inr r"
  shows "0 \<le> fatigue r \<and> fatigue r \<le> 100 \<and> 0 \<le> stress r \<and> stress r \<le> 100
       \<and> 0 \<le> cognitive r \<and> cognitive r \<le> 100 \<and> 0 \<le> rt_clarity r \<and> rt_clarity r \<le> 100
       \<and> 0 \<le> composite r \<and> composite r \<le> 100
       \<and> 35 \<le> confidence r \<and> confidence r \<le> 100
       \<and> risk_level r = risk_of (composite r)
       \<and> (\<forall>c d. c \<le> d \<longrightarrow> risk_rank (risk_of c) \<le> risk_rank (risk_of d))
       \<and> (\<forall>c. risk_rank (risk_of c)
              = (if c < 30 then 0 else if c < 50 then 1 else if c < 70 then 2 else 3))"
proof -
  note fs = compute_indicators_fields[OF assms]
  have 1: "0 \<le> fatigue r \<and> fatigue r \<le> 100"
    unfolding fs fatigue_of_def by (rule clip_bounds) simp
  have 2: "0 \<le> stress r \<and> stress r \<le> 100"
    unfolding fs stress_of_def by (rule clip_bounds) simp
  have 3: "0 \<le> cognitive r \<and> cognitive r \<le> 100"
    unfolding fs cognitive_of_def by (rule clip_bounds) simp
  have 4: "0 \<le> rt_clarity r \<and> rt_clarity r \<le> 100"
    unfolding fs by (rule clip_bounds) simp
  have 5: "0 \<le> composite r \<and> composite r \<le> 100"
    unfolding fs by (rule composite_of_bounds)
  have "0.35 \<le> conf_of f \<and> conf_of f \<le> 1"
    using clip_bounds[of "0.35" "1.0"] by (simp add: conf_of_def)
  then have 6: "35 \<le> confidence r \<and> confidence r \<le> 100"
    unfolding fs by simp
  have 7: "risk_level r = risk_of (composite r)"
    by (simp add: fs)
  have 8: "\<forall>c d. c \<le> d \<longrightarrow> risk_rank (risk_of c) \<le> risk_rank (risk_of d)"
    by (simp add: risk_of_mono)
  have 9: "\<forall>c. risk_rank (risk_of c)
              = (if c < 30 then 0 else if c < 50 then 1 else if c < 70 then 2 else 3)"
    by (simp add: risk_of_def)
  from 1 2 3 4 5 6 7 8 9 show ?thesis by (intro conjI) (elim conjE, assumption)+
qed

theorem indicators_in_range_witness:
  "\<exists>r. compute_indicators (\<lambda>k. Some 0) ''Pilot'' = Inr r
     \<and> 0 \<le> fatigue r \<and> fatigue r \<le> 100 \<and> 0 \<le> stress r \<and> stress r \<le> 100
     \<and> 0 \<le> cognitive r \<and> cognitive r \<le> 100 \<and> 0 \<le> rt_clarity r \<and> rt_clarity r \<le> 100
     \<and> 0 \<le> composite r \<and> composite r \<le> 100
     \<and> 35 \<le> confidence r \<and> confidence r \<le> 100
     \<and> risk_level r = risk_of (composite r)
     \<and> risk_rank (risk_of 29) \<le> risk_rank (risk_of 30)"
proof -
  obtain r where r: "compute_indicators (\<lambda>k. Some 0) ''Pilot'' = Inr r"
    using compute_indicators_total[of "\<lambda>k. Some 0" "''Pilot''"] by auto
  have "(29::real) \<le> 30" by simp
  with indicators_in_range[OF r] r show ?thesis by blast
qed

lemma sample_composite:
  "composite_of (sample_features 150 0 0) role < 30"
  "30 \<le> composite_of (sample_features 150 1 0) role \<and> composite_of (sample_features 150 1 0) role < 50"
  "50 \<le> composite_of (sample_features 0 1 0) role \<and> composite_of (sample_features 0 1 0) role < 70"
  "70 \<le> composite_of (sample_features 0 1 1000) role"
  using sigmoid_range[of 0 12 4] sigmoid_range[of 0 "f0_center role + 30" 25] sigmoid_range[of 0 2200 500]
  unfolding composite_of_def fatigue_of_def stress_of_def cognitive_of_def fat_parts_def
    stre_parts_def cog_parts_def
  by (auto simp: clip_def sample_features_def get_or_def add_divide_distrib diff_divide_distrib)

lemma sample_features_total: "\<exists>r. compute_indicators (sample_features u v w) role = Inr r"
  by (rule compute_indicators_total) (simp add: sample_features_def)

text \<open>
  C2: the composite is 0.35 fatigue + 0.30 stress + 0.35 cognitive (the clarity score does
  not enter it), and the risk level is NOMINAL below 30, MONITOR from 30 and below 50,
  CAUTION from 50 and below 70, ALERT from 70.
\<close>

theorem composite_and_risk:
  assumes "compute_indicators f role = Inr r"
  shows "composite r = 0.35 * fatigue r + 0.30 * stress r + 0.35 * cognitive r
       \<and> (composite r < 30 \<longrightarrow> risk_level r = NOMINAL)
       \<and> (30 \<le> composite r \<and> composite r < 50 \<longrightarrow> risk_level r = MONITOR)
       \<and> (50 \<le> composite r \<and> composite r < 70 \<longrightarrow> risk_level r = CAUTION)
       \<and> (70 \<le> composite r \<longrightarrow> risk_level r = ALERT)"
  using compute_indicators_fields[OF assms]
  by (simp add: composite_of_def risk_of_def)

theorem composite_and_risk_witness:
  "(\<exists>r. compute_indicators (sample_features 150 0 0) ''Pilot'' = Inr r
      \<and> composite r = 0.35 * fatigue r + 0.30 * stress r + 0.35 * cognitive r
      \<and> composite r < 30 \<and> risk_level r = NOMINAL)
 \<and> (\<exists>r. compute_indicators (sample_features 150 1 0) ''Pilot'' = Inr r
      \<and> 30 \<le> composite r \<and> composite r < 50 \<and> risk_level r = MONITOR)
 \<and> (\<exists>r. compute_indicators (sample_features 0 1 0) ''Pilot'' = Inr r
      \<and> 50 \<le> composite r \<and> composite r < 70 \<and> risk_level r = CAUTION)
 \<and> (\<exists>r. compute_indicators (sample_features 0 1 1000) ''Pilot'' = Inr r
      \<and> 70 \<le> composite r \<and> risk_level r = ALERT)"
proof -
  obtain a where a: "compute_indicators (sample_features 150 0 0) ''Pilot'' = Inr a"
    using sample_features_total by blast
  obtain b where b: "compute_indicators (sample_features 150 1 0) ''Pilot'' = Inr b"
    using sample_features_total by blast
  obtain c where c: "compute_indicators (sample_features 0 1 0) ''Pilot'' = Inr c"
    using sample_features_total by blast
  obtain d where d: "compute_indicators (sample_features 0 1 1000) ''Pilot'' = Inr d"
    using sample_features_total by blast
  have ca: "composite a < 30"
    using compute_indicators_fields(5)[OF a] sample_composite(1) by simp
  have cb: "30 \<le> composite b \<and> composite b < 50"
    using compute_indicators_fields(5)[OF b] sample_composite(2) by simp
  have cc: "50 \<le> composite c \<and> composite c < 70"
    using compute_indicators_fields(5)[OF c] sample_composite(3) by simp
  have cd: "70 \<le> composite d"
    using compute_indicators_fields(5)[OF d] sample_composite(4) by simp
  have ra: "composite a = 0.35 * fatigue a + 0.30 * stress a + 0.35 * cognitive a
            \<and> risk_level a = NOMINAL"
    using composite_and_risk[OF a] ca by simp
  have rb: "risk_level b = MONITOR"
    using composite_and_risk[OF b] cb by simp
  have rc: "risk_level c = CAUTION"
    using composite_and_risk[OF c] cc by simp
  have rd: "risk_level d = ALERT"
    using composite_and_risk[OF d] cd by simp
  have A: "\<exists>r. compute_indicators (sample_features 150 0 0) ''Pilot'' = Inr r
      \<and> composite r = 0.35 * fatigue r + 0.30 * stress r + 0.35 * cognitive r
      \<and> composite r < 30 \<and> risk_level r = NOMINAL"
    using a ca ra by (intro exI[of _ a] conjI) simp_all
  have B: "\<exists>r. compute_indicators (sample_features 150 1 0) ''Pilot'' = Inr r
      \<and> 30 \<le> composite r \<and> composite r < 50 \<and> risk_level r = MONITOR"
    using b cb rb by (intro exI[of _ b] conjI) simp_all
  have C: "\<exists>r. compute_indicators (sample_features 0 1 0) ''Pilot'' = Inr r
      \<and> 50 \<le> composite r \<and> composite r < 70 \<and> risk_level r = CAUTION"
    using c cc rc by (intro exI[of _ c] conjI) simp_all
  have D: "\<exists>r. compute_indicators (sample_features 0 1 1000) ''Pilot'' = Inr r
      \<and> 70 \<le> composite r \<and> risk_level r = ALERT"
    using d cd rd by (intro exI[of _ d] conjI) simp_all
  from A B C D show ?thesis by (intro conjI)
qed

section \<open>Properties of the framing\<close>

lemma FRAME_N_val: "FRAME_N = 551"
  by (simp add: FRAME_N_def SR_def FRAME_MS_def py_int_def)

lemma HOP_N_val: "HOP_N = 220"
  by (simp add: HOP_N_def SR_def HOP_MS_def py_int_def)

lemma frame_signal_in_range:
  assumes "0 < hop" "frame_len \<le> length audio"
    "int t < 1 + (int (length audio) - int frame_len) div int hop" "i < frame_len"
  shows "i + hop * t < length audio"
proof -
  have "int t \<le> (int (length audio) - int frame_len) div int hop" using assms(3) by simp
  then have "int t * int hop \<le> (int (length audio) - int frame_len) div int hop * int hop"
    using assms(1) by (simp add: mult_right_mono)
  also have "\<dots> \<le> int (length audio) - int frame_len"
  proof -
    have "0 \<le> (int (length audio) - int frame_len) mod int hop"
      using assms(1) by simp
    moreover have "(int (length audio) - int frame_len) div int hop * int hop
        + (int (length audio) - int frame_len) mod int hop = int (length audio) - int frame_len"
      by simp
    ultimately show ?thesis by linarith
  qed
  finally have "int (hop * t) + int frame_len \<le> int (length audio)" by (simp add: mult.commute)
  then show ?thesis using assms(4) by linarith
qed

lemma frame_signal_n_frames:
  assumes "0 < hop"
  shows "(1 + (int (length audio) - int frame_len) div int hop \<le> 0) = (length audio < frame_len)"
proof -
  have "((int (length audio) - int frame_len) div int hop < 0) = (int (length audio) - int frame_len < 0)"
    using assms by (simp add: pos_imp_zdiv_neg_iff)
  then show ?thesis by linarith
qed

lemma frame_count_int:
  assumes "frame_len \<le> len"
  shows "(int len - int frame_len) div int hop = int ((len - frame_len) div hop)"
  using assms by (metis of_nat_diff zdiv_int)

lemma frame_signal_short:
  assumes "0 < hop" "length audio < frame_len"
  shows "frame_signal audio frame_len hop = Inr [replicate frame_len 0]"
  using assms frame_signal_n_frames[OF assms(1), of audio frame_len]
  by (simp add: frame_signal_def Let_def)

lemma frame_signal_long:
  assumes "0 < hop" "frame_len \<le> length audio"
  shows "frame_signal audio frame_len hop =
         Inr (map (\<lambda>t. map (\<lambda>i. audio ! (i + hop * t)) [0..<frame_len])
                  [0..<Suc ((length audio - frame_len) div hop)])"
proof -
  have n: "nat (1 + (int (length audio) - int frame_len) div int hop)
           = Suc ((length audio - frame_len) div hop)"
    unfolding frame_count_int[OF assms(2)] by simp
  have "\<not> (1 + (int (length audio) - int frame_len) div int hop \<le> 0)"
    using frame_signal_n_frames[OF assms(1), of audio frame_len] assms(2) by simp
  then show ?thesis
    using assms(1) unfolding frame_signal_def Let_def n by (simp del: upt_Suc)
qed

lemma frame_signal_zeros:
  assumes "0 < hop"
  shows "frame_signal (replicate n 0) frame_len hop =
         Inr (replicate (if frame_len \<le> n then Suc ((n - frame_len) div hop) else 1)
                (replicate frame_len 0))"
proof (cases "frame_len \<le> n")
  case False
  then show ?thesis using frame_signal_short[OF assms, of "replicate n 0" frame_len] by simp
next
  case True
  have in_range: "i + hop * t < n" if "t < Suc ((n - frame_len) div hop)" "i < frame_len" for i t
  proof -
    have "int t < 1 + (int (length (replicate n (0::real))) - int frame_len) div int hop"
      using that(1) True by (simp add: frame_count_int)
    from frame_signal_in_range[OF assms _ this that(2)] True show ?thesis by simp
  qed
  have row: "map (\<lambda>i. replicate n (0::real) ! (i + hop * t)) [0..<frame_len] = replicate frame_len 0"
    if "t < Suc ((n - frame_len) div hop)" for t
    using in_range[OF that] by (simp add: list_eq_iff_nth_eq)
  have "map (\<lambda>t. map (\<lambda>i. replicate n (0::real) ! (i + hop * t)) [0..<frame_len])
            [0..<Suc ((n - frame_len) div hop)]
        = replicate (Suc ((n - frame_len) div hop)) (replicate frame_len 0)"
    using row by (simp add: list_eq_iff_nth_eq del: upt_Suc replicate_Suc)
  then show ?thesis
    using frame_signal_long[OF assms, of frame_len "replicate n 0"] True by simp
qed

text \<open>
  C6: the frame length and the hop are the roundings of 551.25 and 220.5 samples, 551 and
  220 (the second is a tie, which goes to the even neighbour; the truncation that the code
  takes gives the same two numbers). Framing never fails and every frame has 551 samples; a
  buffer of \<open>N \<ge> 551\<close> samples gives exactly \<open>1 + (N - 551) div 220\<close> frames, frame \<open>t\<close>
  holding the samples from \<open>220 * t\<close> on; a shorter buffer gives exactly one frame, all zeros.
\<close>

theorem frame_signal_frames:
  "int FRAME_N = py_round (real_of_int (SR * FRAME_MS) / 1000) \<and> FRAME_N = 551
   \<and> int HOP_N = py_round (real_of_int (SR * HOP_MS) / 1000) \<and> HOP_N = 220
   \<and> (\<exists>frames. frame_signal audio FRAME_N HOP_N = Inr frames
        \<and> (\<forall>fr \<in> set frames. length fr = FRAME_N)
        \<and> (FRAME_N \<le> length audio \<longrightarrow>
              int (length frames) = 1 + (int (length audio) - int FRAME_N) div int HOP_N
              \<and> (\<forall>t < length frames. \<forall>i < FRAME_N. frames ! t ! i = audio ! (i + HOP_N * t)))
        \<and> (length audio < FRAME_N \<longrightarrow> frames = [replicate FRAME_N 0]))"
proof -
  have hop: "0 < HOP_N" by (simp add: HOP_N_val)
  have fl: "\<lfloor>(22050 * 25 / 1000 :: real)\<rfloor> = 551" by linarith
  have hl: "\<lfloor>(22050 * 10 / 1000 :: real)\<rfloor> = 220" by linarith
  have rf: "py_round (real_of_int (SR * FRAME_MS) / 1000) = 551"
    unfolding py_round_def SR_def FRAME_MS_def Let_def using fl by simp
  have rh: "py_round (real_of_int (SR * HOP_MS) / 1000) = 220"
    unfolding py_round_def SR_def HOP_MS_def Let_def using hl by simp
  have 1: "int FRAME_N = py_round (real_of_int (SR * FRAME_MS) / 1000)"
    unfolding rf by (simp add: FRAME_N_val)
  have 2: "int HOP_N = py_round (real_of_int (SR * HOP_MS) / 1000)"
    unfolding rh by (simp add: HOP_N_val)
  have "\<exists>frames. frame_signal audio FRAME_N HOP_N = Inr frames
        \<and> (\<forall>fr \<in> set frames. length fr = FRAME_N)
        \<and> (FRAME_N \<le> length audio \<longrightarrow>
              int (length frames) = 1 + (int (length audio) - int FRAME_N) div int HOP_N
              \<and> (\<forall>t < length frames. \<forall>i < FRAME_N. frames ! t ! i = audio ! (i + HOP_N * t)))
        \<and> (length audio < FRAME_N \<longrightarrow> frames = [replicate FRAME_N 0])"
  proof (cases "FRAME_N \<le> length audio")
    case False
    then show ?thesis using frame_signal_short[OF hop, of audio FRAME_N] by simp
  next
    case True
    show ?thesis
      unfolding frame_signal_long[OF hop True]
      using True by (auto simp: frame_count_int simp del: upt_Suc)
  qed
  then show ?thesis
    using 1 2 FRAME_N_val HOP_N_val by - (intro conjI; assumption)
qed

theorem frame_signal_frames_witness:
  "frame_signal (replicate 771 0) FRAME_N HOP_N = Inr [replicate 551 0, replicate 551 0]
   \<and> int (length [replicate 551 (0::real), replicate 551 0])
       = 1 + (int (length (replicate 771 (0::real))) - int FRAME_N) div int HOP_N
   \<and> frame_signal [1, 2, 3] FRAME_N HOP_N = Inr [replicate 551 0]"
proof -
  have a: "FRAME_N \<le> length (replicate 771 (0::real))" by (simp add: FRAME_N_val)
  have b: "length [1, 2, 3::real] < FRAME_N" by (simp add: FRAME_N_val)
  have z: "frame_signal (replicate 771 0) FRAME_N HOP_N = Inr [replicate 551 0, replicate 551 0]"
    using frame_signal_zeros[of HOP_N 771 FRAME_N] by (simp add: FRAME_N_val HOP_N_val)
  from frame_signal_frames[of "[1, 2, 3]"] b
  have "frame_signal [1, 2, 3] FRAME_N HOP_N = Inr [replicate 551 0]"
    by (auto simp: FRAME_N_val)
  moreover from frame_signal_frames[of "replicate 771 0"] a z
  have "int (length [replicate 551 (0::real), replicate 551 0])
       = 1 + (int (length (replicate 771 (0::real))) - int FRAME_N) div int HOP_N"
    by auto
  ultimately show ?thesis using z by (intro conjI)
qed

section \<open>Properties of the normalization\<close>

lemma bind_e_Inr [simp]: "bind_e (Inr x) k = k x"
  by (simp add: bind_e_def)

lemma bind_e_Inl [simp]: "bind_e (Inl e) k = Inl e"
  by (simp add: bind_e_def)

lemma normalize_audio_nonempty:
  assumes "audio \<noteq> []"
  shows "normalize_audio audio = Inr (map (\<lambda>x. x / (Max (set (map abs audio)) + 1 / 10 ^ 9)) audio)"
  using assms by (simp add: normalize_audio_def np_max_def)

lemma peak_ge:
  assumes "x \<in> set audio"
  shows "\<bar>x\<bar> \<le> Max (set (map abs audio))"
  using assms by (intro Max_ge) auto

text \<open>
  C7: on a non-empty buffer normalization divides every sample by the peak magnitude plus
  1e-9, a denominator that is positive; no output sample exceeds magnitude 1, and a buffer
  of zeros is mapped to a buffer of zeros.
\<close>
theorem normalize_audio_peak:
  assumes "audio \<noteq> []"
  shows "\<exists>out. normalize_audio audio = Inr out
           \<and> out = map (\<lambda>x. x / (Max (set (map abs audio)) + 1 / 10 ^ 9)) audio
           \<and> 0 < Max (set (map abs audio)) + 1 / 10 ^ 9
           \<and> length out = length audio
           \<and> (\<forall>y \<in> set out. \<bar>y\<bar> \<le> 1)
           \<and> ((\<forall>x \<in> set audio. x = 0) \<longrightarrow> (\<forall>y \<in> set out. y = 0))"
proof -
  define peak where "peak = Max (set (map abs audio))"
  obtain x0 where x0: "x0 \<in> set audio" using assms by (cases audio) auto
  have "0 \<le> \<bar>x0\<bar>" by simp
  also have "\<bar>x0\<bar> \<le> peak" unfolding peak_def by (rule peak_ge[OF x0])
  finally have pos: "0 < peak + 1 / 10 ^ 9" by simp
  have le: "\<bar>x / (peak + 1 / 10 ^ 9)\<bar> \<le> 1" if "x \<in> set audio" for x
  proof -
    have "\<bar>x\<bar> \<le> peak" unfolding peak_def by (rule peak_ge[OF that])
    then have "\<bar>x\<bar> \<le> peak + 1 / 10 ^ 9" by simp
    then show ?thesis using pos by (simp add: abs_divide del: of_nat_numeral)
  qed
  show ?thesis
    unfolding normalize_audio_nonempty[OF assms] peak_def[symmetric]
    using pos le by auto
qed

theorem normalize_audio_peak_witness:
  "normalize_audio [3, - 4] = Inr [3 / (4 + 1 / 10 ^ 9), - 4 / (4 + 1 / 10 ^ 9)]
   \<and> \<bar>3 / (4 + 1 / 10 ^ 9)\<bar> \<le> (1::real) \<and> \<bar>- 4 / (4 + 1 / 10 ^ 9)\<bar> \<le> (1::real)
   \<and> normalize_audio [0, 0, 0] = Inr [0, 0, 0]"
proof -
  have a: "[3, - 4 :: real] \<noteq> []" and b: "[0, 0, 0 :: real] \<noteq> []" by simp_all
  have A: "normalize_audio [3, - 4] = Inr [3 / (4 + 1 / 10 ^ 9), - 4 / (4 + 1 / 10 ^ 9)]
         \<and> \<bar>3 / (4 + 1 / 10 ^ 9)\<bar> \<le> (1::real) \<and> \<bar>- 4 / (4 + 1 / 10 ^ 9)\<bar> \<le> (1::real)"
    using normalize_audio_peak[OF a] by simp
  have B: "normalize_audio [0, 0, 0] = Inr [0, 0, 0]"
    using normalize_audio_peak[OF b] by simp
  from A B show ?thesis by simp
qed

section \<open>Properties of the LPC estimator\<close>

lemma lpc_step_length:
  assumes "lpc_step r i (a, e) = Inr (a', e')"
  shows "length a' = length a"
proof -
  have len: "length (fold (\<lambda>j an. an[j := g j]) js b) = length b" for g :: "nat \<Rightarrow> real" and js b
    by (induction js arbitrary: b) simp_all
  from assms show ?thesis
    by (auto simp: lpc_step_def Let_def len split: if_splits)
qed

lemma lpc_step_Inr:
  assumes "i + 1 < length r"
  shows "\<exists>st'. lpc_step r i st = Inr st'"
  using assms by (cases st) (simp add: lpc_step_def Let_def)

lemma lpc_loop_Inr:
  assumes "\<forall>i \<in> set is. i + 1 < length r"
  shows "\<exists>a' e'. lpc_loop r is (a, e) = Inr (a', e') \<and> length a' = length a"
  using assms
proof (induction "is" arbitrary: a e)
  case Nil
  then show ?case by simp
next
  case (Cons i "is")
  from Cons.prems have "i + 1 < length r" by simp
  from lpc_step_Inr[OF this, of "(a, e)"] obtain a1 e1 where
    s: "lpc_step r i (a, e) = Inr (a1, e1)" by (metis surj_pair)
  from lpc_step_length[OF s] have l: "length a1 = length a" .
  from Cons.IH[of a1 e1] Cons.prems obtain a' e' where
    "lpc_loop r is (a1, e1) = Inr (a', e')" "length a' = length a1" by auto
  with s l show ?case by simp
qed

lemma acorr_zeros: "acorr (replicate n 0) k = 0"
  by (simp add: acorr_def zip_replicate sum_list_replicate)

lemma length_hamming [simp]: "length (hamming M) = M"
  by (simp add: hamming_def)

lemma length_windowed [simp]: "length (windowed frame) = length frame"
  by (simp add: windowed_def)

lemma windowed_zeros: "windowed (replicate n 0) = replicate n 0"
  by (simp add: windowed_def list_eq_iff_nth_eq)

lemma windowed_all_zero:
  assumes "\<forall>x \<in> set frame. x = 0"
  shows "windowed frame = replicate (length frame) 0"
proof -
  have "frame = replicate (length frame) 0"
    using assms by (simp add: list_eq_iff_nth_eq)
  then show ?thesis using windowed_zeros[of "length frame"] by simp
qed

text \<open>
  C10: for every frame longer than the order (the frames of the pipeline have 551 samples,
  the order is 16) the LPC estimator returns a vector of exactly \<open>order\<close> coefficients; when
  the zero-lag autocorrelation of the windowed frame is below 1e-12, and so for every
  all-zero frame, the vector is all zeros.
\<close>
theorem compute_lpc_length:
  assumes "order < length frame"
  shows "\<exists>a. compute_lpc frame order = Inr a \<and> length a = order
           \<and> (acorr (windowed frame) 0 < 1 / 10 ^ 12 \<longrightarrow> a = replicate order 0)
           \<and> ((\<forall>x \<in> set frame. x = 0) \<longrightarrow> a = replicate order 0)"
proof -
  define w where "w = windowed frame"
  define r where "r = map (acorr w) [0..<min (order + 1) (length w)]"
  have ne: "frame \<noteq> []" using assms by auto
  have lr: "length r = order + 1" using assms by (simp add: r_def w_def)
  have r0: "r ! 0 = acorr w 0" using assms by (simp add: r_def w_def del: upt_Suc)
  have zero: "acorr w 0 < 1 / 10 ^ 12" if "\<forall>x \<in> set frame. x = 0"
    using windowed_all_zero[OF that] by (simp add: w_def acorr_zeros)
  have eq: "compute_lpc frame order =
      (if r ! 0 < 1 / 10 ^ 12 then Inr (replicate order 0)
       else bind_e (lpc_loop r [0..<order] (replicate order 0, r ! 0)) (\<lambda>st. Inr (fst st)))"
    unfolding compute_lpc_def Let_def r_def w_def by (simp only: ne if_False)
  show ?thesis
  proof (cases "r ! 0 < 1 / 10 ^ 12")
    case True
    then have "compute_lpc frame order = Inr (replicate order 0)"
      unfolding eq by (simp only: if_True)
    then show ?thesis by simp
  next
    case False
    have "\<forall>i \<in> set [0..<order]. i + 1 < length r" by (simp add: lr)
    from lpc_loop_Inr[OF this, of "replicate order 0" "r ! 0"] obtain a' e' where
      l: "lpc_loop r [0..<order] (replicate order 0, r ! 0) = Inr (a', e')" "length a' = order"
      by auto
    have "compute_lpc frame order = Inr a'"
      unfolding eq using False l(1) by simp
    then show ?thesis using l(2) False zero by (auto simp: r0 w_def)
  qed
qed

theorem compute_lpc_length_witness:
  "compute_lpc (replicate 551 0) 16 = Inr (replicate 16 0) \<and> length (replicate 16 (0::real)) = 16
   \<and> (\<exists>a. compute_lpc [1, 2, 3] 2 = Inr a \<and> length a = 2)"
proof -
  have "(16::nat) < length (replicate 551 (0::real))" by simp
  from compute_lpc_length[OF this]
  have A: "compute_lpc (replicate 551 0) 16 = Inr (replicate 16 0)" by auto
  have "(2::nat) < length [1, 2, 3::real]" by simp
  from compute_lpc_length[OF this]
  have B: "\<exists>a. compute_lpc [1, 2, 3] 2 = Inr a \<and> length a = 2" by blast
  from A B show ?thesis by simp
qed

section \<open>Properties of the pitch estimator\<close>

text \<open>
  The scan of \<^verbatim>\<open>find_peaks\<close> only returns indices that have a neighbour on both sides, so a
  selected lag lies strictly inside the searched slice.
\<close>

lemma plateau_end_le: "i_ahead \<le> i_max \<Longrightarrow> plateau_end x i_max v i_ahead \<le> i_max"
proof (induction x i_max v i_ahead rule: plateau_end.induct)
  case (1 x i_max v i_ahead)
  show ?case
  proof (cases "i_ahead < i_max \<and> x ! i_ahead = v")
    case True
    with 1 have "plateau_end x i_max v (i_ahead + 1) \<le> i_max" by simp
    with True show ?thesis by (subst plateau_end.simps) simp
  next
    case False
    with 1(2) show ?thesis by (subst plateau_end.simps) auto
  qed
qed

lemma local_maxima_range:
  "p \<in> set (local_maxima x i) \<Longrightarrow> i \<le> p \<and> p + 2 \<le> length x"
proof (induction x i arbitrary: p rule: local_maxima.induct)
  case (1 x i)
  show ?case
  proof (cases "i < length x - 1")
    case False
    with "1.prems" show ?thesis by (subst (asm) local_maxima.simps) simp
  next
    case True
    define ia where "ia = plateau_end x (length x - 1) (x ! i) (i + 1)"
    have ge: "i + 1 \<le> ia" unfolding ia_def by (rule plateau_end_ge)
    have le: "ia \<le> length x - 1" unfolding ia_def using True by (intro plateau_end_le) simp
    show ?thesis
    proof (cases "x ! (i - 1) < x ! i")
      case False
      with True "1.prems" have "p \<in> set (local_maxima x (i + 1))"
        by (subst (asm) local_maxima.simps) simp
      from "1.IH"(3)[OF True False this] show ?thesis by simp
    next
      case lt: True
      show ?thesis
      proof (cases "x ! ia < x ! i")
        case False
        with True lt "1.prems" have "p \<in> set (local_maxima x (i + 1))"
          by (subst (asm) local_maxima.simps) (simp add: ia_def Let_def)
        from "1.IH"(2)[OF True lt ia_def False this] show ?thesis by simp
      next
        case pk: True
        with True lt "1.prems" have "p = (i + (ia - 1)) div 2 \<or> p \<in> set (local_maxima x (ia + 1))"
          by (subst (asm) local_maxima.simps) (simp add: ia_def Let_def)
        then show ?thesis
        proof
          assume "p = (i + (ia - 1)) div 2"
          with ge le True show ?thesis by auto
        next
          assume "p \<in> set (local_maxima x (ia + 1))"
          from "1.IH"(1)[OF True lt ia_def pk this] ge show ?thesis by simp
        qed
      qed
    qed
  qed
qed

lemma find_peaks_range:
  assumes "p \<in> set (find_peaks x)"
  shows "1 \<le> p \<and> p + 2 \<le> length x \<and> 0 \<le> x ! p"
  using assms local_maxima_range[of p x 1] by (auto simp: find_peaks_def)

lemma first_index_less: "\<exists>y \<in> set ys. P y \<Longrightarrow> first_index P ys < length ys"
  by (induction ys) auto

lemma np_argmax_less: "ys \<noteq> [] \<Longrightarrow> np_argmax ys < length ys"
  unfolding np_argmax_def
  by (rule first_index_less) (metis List.finite_set Max_in set_empty)

lemma f0_bounds:
  assumes "0 \<le> sr" "py_int (real_of_int sr / 500) < int best" "int best + 2 \<le> py_int (real_of_int sr / 60)"
  shows "60 \<le> real_of_int sr / real best \<and> real_of_int sr / real best \<le> 500"
proof -
  have lo: "py_int (real_of_int sr / 500) = \<lfloor>real_of_int sr / 500\<rfloor>"
    and hi: "py_int (real_of_int sr / 60) = \<lfloor>real_of_int sr / 60\<rfloor>"
    using assms(1) by (simp_all add: py_int_def)
  have bpos: "0 < real best"
  proof -
    have "0 \<le> \<lfloor>real_of_int sr / 500\<rfloor>" using assms(1) by simp
    with assms(2) lo have "0 < int best" by linarith
    then show ?thesis by simp
  qed
  have "real_of_int sr / 500 < real_of_int (\<lfloor>real_of_int sr / 500\<rfloor> + 1)" by linarith
  also have "\<dots> \<le> real best" using assms(2) lo by (simp add: int_less_real_le)
  finally have "real_of_int sr < 500 * real best" by simp
  then have up: "real_of_int sr / real best \<le> 500"
    using bpos by (simp add: divide_le_eq)
  have "real_of_int (int best + 2) \<le> real_of_int \<lfloor>real_of_int sr / 60\<rfloor>"
    using assms(3) hi by (simp only: of_int_le_iff)
  also have "\<dots> \<le> real_of_int sr / 60" by (rule of_int_floor_le)
  finally have "60 * real best \<le> real_of_int sr" by simp
  then have "60 \<le> real_of_int sr / real best"
    using bpos by (simp add: le_divide_eq)
  with up show ?thesis by simp
qed

lemma estimate_f0_frame_voiced:
  assumes "estimate_f0_frame frame sr 60 500 = Inr f0" "f0 \<noteq> 0"
  shows "\<exists>corr best. clipped_corr frame = Inr corr \<and> best < length corr
           \<and> 0 \<le> sr
           \<and> py_int (real_of_int sr / 500) < int best
           \<and> int best + 2 \<le> py_int (real_of_int sr / 60)
           \<and> 1 / 10 ^ 12 \<le> corr ! 0
           \<and> 3 / 10 \<le> corr ! best / (corr ! 0 + 1 / 10 ^ 12)
           \<and> f0 = real_of_int sr / real best"
proof -
  from assms(1) obtain corr where cc: "clipped_corr frame = Inr corr"
    by (cases "clipped_corr frame") (simp_all add: estimate_f0_frame_def)
  define lag_min where "lag_min = py_int (real_of_int sr / 500)"
  define lag_max where "lag_max = min (py_int (real_of_int sr / 60)) (int (length corr) - 1)"
  define seg where "seg = lag_segment corr lag_min lag_max"
  define peaks where "peaks = find_peaks seg"
  define best where "best = best_lag seg peaks lag_min"
  have eq: "estimate_f0_frame frame sr 60 500 =
      (if lag_min \<ge> lag_max \<or> corr ! 0 < 1 / 10 ^ 12 then Inr 0
       else if peaks = [] then Inr 0
       else if corr ! best / (corr ! 0 + 1 / 10 ^ 12) \<ge> 0.3
            then Inr (real_of_int sr / real best) else Inr 0)"
    by (simp add: estimate_f0_frame_def cc Let_def lag_min_def lag_max_def seg_def peaks_def
        best_def)
  from assms eq have g1: "lag_min < lag_max" and g2: "1 / 10 ^ 12 \<le> corr ! 0"
    and g3: "peaks \<noteq> []" and g4: "3 / 10 \<le> corr ! best / (corr ! 0 + 1 / 10 ^ 12)"
    and g5: "f0 = real_of_int sr / real best"
    by (auto split: if_splits)
  have sr: "0 \<le> sr"
  proof (rule ccontr)
    assume "\<not> 0 \<le> sr"
    then have neg: "sr < 0" by simp
    then have "real_of_int sr / 60 \<le> real_of_int sr / 500" by simp
    then have "\<lceil>real_of_int sr / 60\<rceil> \<le> \<lceil>real_of_int sr / 500\<rceil>" by (rule ceiling_mono)
    moreover have "lag_min = \<lceil>real_of_int sr / 500\<rceil>"
      using neg by (simp add: lag_min_def py_int_def divide_less_0_iff)
    moreover have "lag_max \<le> \<lceil>real_of_int sr / 60\<rceil>"
      using neg by (simp add: lag_max_def py_int_def divide_less_0_iff)
    ultimately show False using g1 by simp
  qed
  have lmin: "0 \<le> lag_min" using sr by (simp add: lag_min_def py_int_def)
  have lmax: "lag_max \<le> int (length corr) - 1" by (simp add: lag_max_def)
  have lseg: "length seg = nat lag_max - nat lag_min"
    using lmax g1 lmin by (simp add: seg_def lag_segment_def)
  define p where "p = peaks ! np_argmax (map (\<lambda>p. seg ! p) peaks)"
  have "np_argmax (map (\<lambda>p. seg ! p) peaks) < length (map (\<lambda>p. seg ! p) peaks)"
    using g3 by (intro np_argmax_less) simp
  then have "p \<in> set peaks" by (simp add: p_def)
  from find_peaks_range[OF this[unfolded peaks_def]]
  have pr: "1 \<le> p" "p + 2 \<le> length seg" by simp_all
  have b: "best = p + nat lag_min" by (simp add: best_def best_lag_def p_def)
  have b1: "lag_min < int best" using pr(1) lmin by (simp add: b)
  have b2: "int best + 2 \<le> lag_max" using pr(2) lseg lmin g1 by (simp add: b)
  have b3: "best < length corr" using b2 lmax by linarith
  have b4: "int best + 2 \<le> py_int (real_of_int sr / 60)" using b2 by (simp add: lag_max_def)
  from cc b3 sr b1[unfolded lag_min_def] b4 g2 g4 g5 show ?thesis by blast
qed

lemma ratio_zero_lag:
  fixes c0 cb :: real
  assumes "1 / 10 ^ 12 \<le> c0" "3 / 10 \<le> cb / (c0 + 1 / 10 ^ 12)"
  shows "3 / 10 \<le> cb / c0"
proof -
  have c0: "0 < c0" using assms(1) by (smt (verit) divide_pos_pos zero_less_numeral zero_less_power zero_less_one)
  have d: "0 < c0 + 1 / 10 ^ 12" using c0 by simp
  from assms(2) d have "3 / 10 * (c0 + 1 / 10 ^ 12) \<le> cb" by (simp add: le_divide_eq)
  moreover have "3 / 10 * c0 \<le> 3 / 10 * (c0 + 1 / 10 ^ 12)" by simp
  ultimately have "3 / 10 * c0 \<le> cb" by linarith
  then show ?thesis using c0 by (simp add: le_divide_eq)
qed

lemma hamming5: "hamming 5 = [2/25, 27/50, 1, 27/50, 2/25]"
proof -
  have u: "[0..<5] = [0, 1, 2, 3, 4]" by (simp add: upt_rec)
  have c1: "cos (pi * 2 / 4) = 0" "cos (- (pi * 2 / 4)) = 0" by simp_all
  show ?thesis
    by (simp add: hamming_def u)
qed

lemma windowed5: "windowed [0, 1, 0, 1, 0] = [0, 27/50, 0, 27/50, 0]"
proof -
  have l: "length [0, 1, 0, 1, 0 :: real] = 5" by simp
  show ?thesis unfolding windowed_def l hamming5 by simp
qed

lemma clipped5: "clipped_corr [0, 1, 0, 1, 0] = Inr [729/1250, 0, 729/2500, 0, 0]"
proof -
  have u: "[0..<5] = [0, 1, 2, 3, 4]" by (simp add: upt_rec)
  show ?thesis
    by (simp add: clipped_corr_def windowed5 np_max_def Let_def acorr_def u)
qed

lemma peaks5: "find_peaks [729/1250, 0, 729/2500, 0] = [2]"
  by (simp add: find_peaks_def local_maxima.simps plateau_end.simps Let_def)

lemma f0_5: "estimate_f0_frame [0, 1, 0, 1, 0] 300 60 500 = Inr 150"
  by (simp add: estimate_f0_frame_def clipped5 py_int_def Let_def lag_segment_def best_lag_def
      peaks5 np_argmax_def)

lemma map_e_Inr:
  assumes "\<forall>x \<in> set xs. \<exists>y. g x = Inr y \<and> P y"
  shows "\<exists>ys. map_e g xs = Inr ys \<and> length ys = length xs \<and> (\<forall>y \<in> set ys. P y)"
  using assms
proof (induction xs)
  case Nil
  then show ?case by simp
next
  case (Cons x xs)
  then obtain y where y: "g x = Inr y" "P y" by auto
  from Cons obtain ys where ys: "map_e g xs = Inr ys" "length ys = length xs" "\<forall>y \<in> set ys. P y"
    by auto
  from y ys show ?case by simp
qed

lemma map_e_replicate:
  assumes "g x = Inr y"
  shows "map_e g (replicate n x) = Inr (replicate n y)"
  using assms by (induction n) simp_all

lemma frames_ok:
  "\<exists>frames. frame_signal audio FRAME_N HOP_N = Inr frames \<and> frames \<noteq> []
     \<and> (\<forall>fr \<in> set frames. length fr = FRAME_N)"
proof -
  have hop: "0 < HOP_N" by (simp add: HOP_N_val)
  show ?thesis
  proof (cases "FRAME_N \<le> length audio")
    case False
    then show ?thesis using frame_signal_short[OF hop, of audio FRAME_N] by simp
  next
    case True
    show ?thesis
      unfolding frame_signal_long[OF hop True] by (auto simp del: upt_Suc)
  qed
qed

lemma clipped_corr_Inr:
  assumes "frame \<noteq> []"
  shows "\<exists>corr. clipped_corr frame = Inr corr \<and> length corr = length frame"
proof -
  have "length (windowed frame) \<noteq> 0" using assms by simp
  then have "windowed frame \<noteq> []" by (simp only: length_0_conv not_False_eq_True)
  then show ?thesis by (simp add: clipped_corr_def np_max_def Let_def)
qed

lemma estimate_f0_frame_Inr:
  assumes "frame \<noteq> []"
  shows "\<exists>f0. estimate_f0_frame frame sr 60 500 = Inr f0"
proof -
  from clipped_corr_Inr[OF assms] obtain corr where "clipped_corr frame = Inr corr" by blast
  then show ?thesis by (simp add: estimate_f0_frame_def Let_def)
qed

lemma clipped_corr_zeros:
  assumes "0 < n"
  shows "clipped_corr (replicate n 0) = Inr (replicate n 0)"
proof -
  have m: "Max (set (replicate n (0::real))) = 0" using assms by simp
  have "map (acorr (replicate n 0)) [0..<n] = replicate n 0"
    by (simp add: list_eq_iff_nth_eq acorr_zeros)
  then show ?thesis
    using assms by (simp add: clipped_corr_def windowed_zeros np_max_def m Let_def)
qed

lemma estimate_f0_frame_zeros:
  assumes "0 < n"
  shows "estimate_f0_frame (replicate n 0) sr 60 500 = Inr 0"
  using assms by (simp add: estimate_f0_frame_def clipped_corr_zeros Let_def)

lemma f0_range:
  assumes "estimate_f0_frame frame sr 60 500 = Inr f0"
  shows "f0 = 0 \<or> (60 \<le> f0 \<and> f0 \<le> 500)"
proof (cases "f0 = 0")
  case True
  then show ?thesis by simp
next
  case False
  from estimate_f0_frame_voiced[OF assms False] obtain best where
    "0 \<le> sr" "py_int (real_of_int sr / 500) < int best"
    "int best + 2 \<le> py_int (real_of_int sr / 60)" "f0 = real_of_int sr / real best"
    by blast
  with f0_bounds[of sr best] show ?thesis by simp
qed

lemma compute_f0_track_Inr:
  "\<exists>track. compute_f0_track audio sr = Inr track
      \<and> (\<forall>f \<in> set track. f = 0 \<or> (60 \<le> f \<and> f \<le> 500))
      \<and> (\<exists>frames. frame_signal audio FRAME_N HOP_N = Inr frames \<and> length track = length frames)"
proof -
  from frames_ok[of audio] obtain frames where
    fr: "frame_signal audio FRAME_N HOP_N = Inr frames" "\<forall>fr \<in> set frames. length fr = FRAME_N"
    by blast
  have "\<forall>x \<in> set frames. \<exists>y. estimate_f0_frame x sr 60 500 = Inr y \<and> (y = 0 \<or> (60 \<le> y \<and> y \<le> 500))"
  proof
    fix x assume "x \<in> set frames"
    with fr(2) have "x \<noteq> []" by (auto simp: FRAME_N_val)
    from estimate_f0_frame_Inr[OF this, of sr] obtain y where y: "estimate_f0_frame x sr 60 500 = Inr y"
      by blast
    with f0_range[OF y] show "\<exists>y. estimate_f0_frame x sr 60 500 = Inr y \<and> (y = 0 \<or> (60 \<le> y \<and> y \<le> 500))"
      by blast
  qed
  from map_e_Inr[where g="\<lambda>f. estimate_f0_frame f sr 60 500" and P="\<lambda>y. y = 0 \<or> (60 \<le> y \<and> y \<le> 500)", OF this]
  show ?thesis using fr(1) by (auto simp: compute_f0_track_def)
qed

lemma compute_f0_track_zeros:
  "compute_f0_track (replicate n 0) sr =
     Inr (replicate (if FRAME_N \<le> n then Suc ((n - FRAME_N) div HOP_N) else 1) 0)"
proof -
  have hop: "0 < HOP_N" by (simp add: HOP_N_val)
  have z: "estimate_f0_frame (replicate FRAME_N 0) sr 60 500 = Inr 0"
    by (rule estimate_f0_frame_zeros) (simp add: FRAME_N_val)
  show ?thesis
    unfolding compute_f0_track_def frame_signal_zeros[OF hop]
    by (simp only: bind_e_Inr
        map_e_replicate[where g="\<lambda>f. estimate_f0_frame f sr 60 500", OF z])
qed

text \<open>
  C3: a per-frame estimate is 0 or lies in [60, 500] Hz. A non-zero estimate is the sample
  rate over a lag \<open>best\<close> that lies strictly inside the searched range, from int(sr/500) to
  int(sr/60), and whose autocorrelation divided by the zero-lag value is at least 0.3.
  The track of a buffer always exists and every entry of it is 0 or in [60, 500].
\<close>

theorem f0_estimate_range:
  "(\<forall>f0. estimate_f0_frame frame sr 60 500 = Inr f0 \<longrightarrow>
      f0 = 0 \<or>
      (60 \<le> f0 \<and> f0 \<le> 500 \<and>
       (\<exists>corr best. clipped_corr frame = Inr corr \<and> best < length corr
          \<and> py_int (real_of_int sr / 500) < int best
          \<and> int best < py_int (real_of_int sr / 60)
          \<and> 3 / 10 \<le> corr ! best / corr ! 0
          \<and> f0 = real_of_int sr / real best)))
   \<and> (\<exists>track. compute_f0_track audio sr = Inr track
          \<and> (\<forall>f \<in> set track. f = 0 \<or> (60 \<le> f \<and> f \<le> 500)))"
proof (intro conjI allI impI)
  fix f0 assume e: "estimate_f0_frame frame sr 60 500 = Inr f0"
  show "f0 = 0 \<or>
      (60 \<le> f0 \<and> f0 \<le> 500 \<and>
       (\<exists>corr best. clipped_corr frame = Inr corr \<and> best < length corr
          \<and> py_int (real_of_int sr / 500) < int best
          \<and> int best < py_int (real_of_int sr / 60)
          \<and> 3 / 10 \<le> corr ! best / corr ! 0
          \<and> f0 = real_of_int sr / real best))"
  proof (cases "f0 = 0")
    case True
    then show ?thesis by simp
  next
    case False
    from estimate_f0_frame_voiced[OF e False] obtain corr best where
      v: "clipped_corr frame = Inr corr" "best < length corr" "0 \<le> sr"
        "py_int (real_of_int sr / 500) < int best"
        "int best + 2 \<le> py_int (real_of_int sr / 60)"
        "1 / 10 ^ 12 \<le> corr ! 0"
        "3 / 10 \<le> corr ! best / (corr ! 0 + 1 / 10 ^ 12)"
        "f0 = real_of_int sr / real best"
      by blast
    have r: "3 / 10 \<le> corr ! best / corr ! 0" by (rule ratio_zero_lag[OF v(6) v(7)])
    have b: "int best < py_int (real_of_int sr / 60)" using v(5) by linarith
    from f0_bounds[OF v(3) v(4) v(5)] v(8) have "60 \<le> f0 \<and> f0 \<le> 500" by simp
    with v(1,2,4,8) r b show ?thesis by blast
  qed
next
  from compute_f0_track_Inr[of audio sr]
  show "\<exists>track. compute_f0_track audio sr = Inr track
          \<and> (\<forall>f \<in> set track. f = 0 \<or> (60 \<le> f \<and> f \<le> 500))"
    by blast
qed

theorem f0_estimate_range_witness:
  "estimate_f0_frame [0, 1, 0, 1, 0] 300 60 500 = Inr 150
   \<and> (\<exists>corr best. clipped_corr [0, 1, 0, 1, 0] = Inr corr \<and> best < length corr
          \<and> py_int (real_of_int 300 / 500) < int best
          \<and> int best < py_int (real_of_int 300 / 60)
          \<and> 3 / 10 \<le> corr ! best / corr ! 0
          \<and> (150::real) = real_of_int 300 / real best)
   \<and> compute_f0_track (replicate 771 0) 22050 = Inr [0, 0]"
proof -
  have t: "compute_f0_track (replicate 771 0) 22050 = Inr [0, 0]"
    using compute_f0_track_zeros[of 771 22050] by (simp add: FRAME_N_val HOP_N_val)
  from f0_estimate_range[of "[0, 1, 0, 1, 0]" 300 "replicate 771 0"] f0_5
  have "\<exists>corr best. clipped_corr [0, 1, 0, 1, 0] = Inr corr \<and> best < length corr
          \<and> py_int (real_of_int 300 / 500) < int best
          \<and> int best < py_int (real_of_int 300 / 60)
          \<and> 3 / 10 \<le> corr ! best / corr ! 0
          \<and> (150::real) = real_of_int 300 / real best"
    by simp
  with f0_5 t show ?thesis by simp
qed

text \<open>
  C9: the F0 track of every buffer exists, and when fewer than 4 of its entries are voiced
  the perturbation computation returns jitter-local, jitter-RAP, shimmer-local and
  shimmer-dB all equal to 0, without raising.
\<close>

theorem jitter_shimmer_fallback:
  "\<exists>f0. compute_f0_track audio sr = Inr f0
      \<and> (length (filter (\<lambda>x. 0 < x) f0) < 4 \<longrightarrow>
           compute_jitter_shimmer audio sr =
             Inr [(''jitter_local'', 0), (''jitter_rap'', 0),
                  (''shimmer_local'', 0), (''shimmer_db'', 0)])"
proof -
  from compute_f0_track_Inr[of audio sr] obtain f0 where f0: "compute_f0_track audio sr = Inr f0"
    by blast
  then show ?thesis by (simp add: compute_jitter_shimmer_def Let_def)
qed

theorem jitter_shimmer_fallback_witness:
  "compute_f0_track (replicate 22050 0) 22050 = Inr (replicate 98 0)
   \<and> length (filter (\<lambda>x. 0 < x) (replicate 98 (0::real))) < 4
   \<and> compute_jitter_shimmer (replicate 22050 0) 22050 =
        Inr [(''jitter_local'', 0), (''jitter_rap'', 0), (''shimmer_local'', 0), (''shimmer_db'', 0)]"
proof -
  have t: "compute_f0_track (replicate 22050 0) 22050 = Inr (replicate 98 0)"
    using compute_f0_track_zeros[of 22050 22050] by (simp add: FRAME_N_val HOP_N_val)
  have l: "length (filter (\<lambda>x. 0 < x) (replicate 98 (0::real))) < 4" by simp
  from jitter_shimmer_fallback[of "replicate 22050 0" 22050] t l
  show ?thesis by simp
qed

section \<open>Framing inside the engines\<close>






section \<open>Independence of the state that outlives a call\<close>

lemma cache_ok_empty: "cache_ok Map.empty"
  by (simp add: cache_ok_def)

lemma get_fbank_ok:
  assumes "cache_ok c"
  shows "fst (get_fbank c sr n_fft n_mels) = mel_filterbank sr n_fft n_mels 80 8000"
    and "cache_ok (snd (get_fbank c sr n_fft n_mels))"
proof -
  show "fst (get_fbank c sr n_fft n_mels) = mel_filterbank sr n_fft n_mels 80 8000"
  proof (cases "c (sr, n_fft, n_mels)")
    case None
    then show ?thesis by (simp add: get_fbank_def split: sum.splits)
  next
    case (Some fb)
    with assms have "mel_filterbank sr n_fft n_mels 80 8000 = Inr fb"
      unfolding cache_ok_def by blast
    with Some show ?thesis by (simp add: get_fbank_def)
  qed
  show "cache_ok (snd (get_fbank c sr n_fft n_mels))"
  proof (cases "c (sr, n_fft, n_mels)")
    case (Some fb)
    with assms show ?thesis by (simp add: get_fbank_def)
  next
    case None
    show ?thesis
    proof (cases "mel_filterbank sr n_fft n_mels 80 8000")
      case (Inl e)
      with None assms show ?thesis by (simp add: get_fbank_def)
    next
      case (Inr fb)
      with None have s: "snd (get_fbank c sr n_fft n_mels) = c((sr, n_fft, n_mels) \<mapsto> fb)"
        by (simp add: get_fbank_def)
      show ?thesis
        unfolding s cache_ok_def using assms Inr by (auto simp: cache_ok_def)
    qed
  qed
qed

lemma compute_mfcc_ok:
  assumes "cache_ok c"
  shows "fst (compute_mfcc c audio sr) = fst (compute_mfcc Map.empty audio sr)"
    and "cache_ok (snd (compute_mfcc c audio sr))"
proof -
  have f: "fst (compute_mfcc c' audio sr) =
      (case mfcc_frames audio of Inl e \<Rightarrow> Inl e
       | Inr frames \<Rightarrow>
           (case fst (get_fbank c' sr 512 40) of Inl e \<Rightarrow> Inl e
            | Inr fbank \<Rightarrow> Inr (mfcc_of_power (power_spectrum frames 512) fbank N_MFCC)))" for c'
    by (simp add: compute_mfcc_def Let_def split: sum.splits prod.splits)
  show "fst (compute_mfcc c audio sr) = fst (compute_mfcc Map.empty audio sr)"
    unfolding f get_fbank_ok(1)[OF assms] get_fbank_ok(1)[OF cache_ok_empty] ..
  have s: "snd (compute_mfcc c audio sr) =
      (case mfcc_frames audio of Inl e \<Rightarrow> c | Inr frames \<Rightarrow> snd (get_fbank c sr 512 40))"
    by (simp add: compute_mfcc_def Let_def split: sum.splits prod.splits)
  show "cache_ok (snd (compute_mfcc c audio sr))"
    unfolding s using assms get_fbank_ok(2)[OF assms] by (simp split: sum.splits)
qed

lemma body_ok:
  assumes "cache_ok c"
  shows "fst (extract_features_body c audio sr) = fst (extract_features_body Map.empty audio sr)"
    and "cache_ok (snd (extract_features_body c audio sr))"
proof -
  have f: "fst (extract_features_body c' audio sr) =
      (case normalize_audio audio of Inl e \<Rightarrow> Inl e
       | Inr a \<Rightarrow> (case fst (compute_mfcc c' a sr) of Inl e \<Rightarrow> Inl e
                   | Inr mfcc \<Rightarrow> features_from a sr mfcc))" for c'
    by (simp add: extract_features_body_def split: sum.splits prod.splits)
  show "fst (extract_features_body c audio sr) = fst (extract_features_body Map.empty audio sr)"
    unfolding f compute_mfcc_ok(1)[OF assms] ..
  have s: "snd (extract_features_body c audio sr) =
      (case normalize_audio audio of Inl e \<Rightarrow> c | Inr a \<Rightarrow> snd (compute_mfcc c a sr))"
    by (simp add: extract_features_body_def split: sum.splits prod.splits)
  show "cache_ok (snd (extract_features_body c audio sr))"
    unfolding s using assms compute_mfcc_ok(2)[OF assms] by (simp split: sum.splits)
qed

lemma state_ok_init: "state_ok init_state"
  by (simp add: state_ok_def init_state_def cache_ok_empty)

lemma extract_all_features_ok:
  assumes "state_ok st"
  shows "fst (extract_all_features st audio sr) = fst (extract_features_body Map.empty audio sr)"
    and "state_ok (snd (extract_all_features st audio sr))"
proof -
  from assms have c: "cache_ok (fbanks st)" by (simp add: state_ok_def)
  note b = body_ok[OF c, of audio sr]
  show "fst (extract_all_features st audio sr) = fst (extract_features_body Map.empty audio sr)"
  proof (cases "data_cache st (audio, sr)")
    case (Some x)
    with assms have "fst (extract_features_body Map.empty audio sr) = Inr x"
      unfolding state_ok_def by blast
    with Some show ?thesis by (simp add: extract_all_features_def)
  next
    case None
    then have "fst (extract_all_features st audio sr) = fst (extract_features_body (fbanks st) audio sr)"
      by (simp add: extract_all_features_def split: sum.splits prod.splits)
    with b(1) show ?thesis by simp
  qed
  show "state_ok (snd (extract_all_features st audio sr))"
  proof (cases "data_cache st (audio, sr)")
    case (Some x)
    with assms show ?thesis by (simp add: extract_all_features_def)
  next
    case None
    obtain res c' where r: "extract_features_body (fbanks st) audio sr = (res, c')"
      by (cases "extract_features_body (fbanks st) audio sr")
    from b r have c': "cache_ok c'" and res: "res = fst (extract_features_body Map.empty audio sr)"
      by simp_all
    show ?thesis
    proof (cases res)
      case (Inl e)
      with None r have "snd (extract_all_features st audio sr) = st\<lparr>fbanks := c'\<rparr>"
        by (simp add: extract_all_features_def)
      with assms c' show ?thesis by (simp add: state_ok_def)
    next
      case (Inr x)
      with None r have "snd (extract_all_features st audio sr)
          = st\<lparr>fbanks := c', data_cache := (data_cache st)((audio, sr) \<mapsto> x)\<rparr>"
        by (simp add: extract_all_features_def)
      with assms c' res Inr show ?thesis by (auto simp: state_ok_def)
    qed
  qed
qed

lemma analyze_ok:
  assumes "state_ok st"
  shows "fst (analyze st audio role) =
           bind_e (fst (extract_features_body Map.empty audio SR))
             (\<lambda>x. compute_indicators (feature_dict x) role)"
    and "state_ok (snd (analyze st audio role))"
proof -
  note e = extract_all_features_ok[OF assms, of audio SR]
  obtain res st' where r: "extract_all_features st audio SR = (res, st')"
    by (cases "extract_all_features st audio SR")
  from e r have res: "res = fst (extract_features_body Map.empty audio SR)" and st': "state_ok st'"
    by simp_all
  show "fst (analyze st audio role) =
           bind_e (fst (extract_features_body Map.empty audio SR))
             (\<lambda>x. compute_indicators (feature_dict x) role)"
    unfolding analyze_def r res[symmetric] by (cases res) simp_all
  show "state_ok (snd (analyze st audio role))"
    unfolding analyze_def r using st' by (cases res) simp_all
qed

text \<open>
  C8: the state that outlives a call is the filterbank cache and the result cache, and an
  analysis does not depend on it: from any two states in which every cached value is the
  value its key determines (the initial state is one, and an analysis leads from one to
  another) the same buffer and role give the same result, also when the call is repeated
  in the state the first call left.
\<close>

theorem analysis_deterministic:
  assumes "state_ok s1" "state_ok s2"
  shows "fst (analyze s1 audio role) = fst (analyze s2 audio role)
       \<and> state_ok (snd (analyze s1 audio role))
       \<and> fst (analyze (snd (analyze s1 audio role)) audio role) = fst (analyze s1 audio role)
       \<and> state_ok init_state"
proof -
  have a: "fst (analyze s1 audio role) = fst (analyze s2 audio role)"
    unfolding analyze_ok(1)[OF assms(1)] analyze_ok(1)[OF assms(2)] ..
  have b: "state_ok (snd (analyze s1 audio role))" by (rule analyze_ok(2)[OF assms(1)])
  have c: "fst (analyze (snd (analyze s1 audio role)) audio role) = fst (analyze s1 audio role)"
    unfolding analyze_ok(1)[OF b] analyze_ok(1)[OF assms(1)] ..
  from a b c state_ok_init show ?thesis by simp
qed

theorem analysis_deterministic_witness:
  "fst (analyze init_state [1, 0] ''Pilot'')
     = fst (analyze (snd (analyze init_state [0, 0] ''Pilot'')) [1, 0] ''Pilot'')
   \<and> fst (analyze (snd (analyze init_state [1, 0] ''Pilot'')) [1, 0] ''Pilot'')
     = fst (analyze init_state [1, 0] ''Pilot'')"
proof -
  have s2: "state_ok (snd (analyze init_state [0, 0] ''Pilot''))"
    by (rule analyze_ok(2)[OF state_ok_init])
  from analysis_deterministic[OF state_ok_init s2, of "[1, 0]" "''Pilot''"]
  show ?thesis by simp
qed

section \<open>Absence of exceptions, and the fallbacks for silence\<close>






lemma length_mel_bins [simp]: "length (mel_bins sr n_fft n_mels fmin fmax) = n_mels + 2"
  by (simp add: mel_bins_def linspace_def)

































section \<open>The engine on bytes, and samples that are not finite\<close>









lemma frame_signal_f_short:
  assumes "0 < hop" "length audio < frame_len"
  shows "frame_signal_f audio frame_len hop = Inr [replicate frame_len (Finite 0)]"
  using assms frame_signal_n_frames[OF assms(1), of audio frame_len]
  by (simp add: frame_signal_f_def Let_def)












text \<open>
  Where every sample that framing reads is finite, the real buffer that the engines are
  given has exactly the frames of the float32 buffer, before and after pre-emphasis.
\<close>

lemma frame_signal_view:
  "frame_signal (map real_of_f32 a) frame_len hop =
     (case frame_signal_f a frame_len hop of
        Inl e \<Rightarrow> Inl e | Inr fr \<Rightarrow> Inr (map (map real_of_f32) fr))"
proof (cases "hop = 0")
  case True
  then show ?thesis by (simp add: frame_signal_f_def frame_signal_def)
next
  case False
  then have hop: "0 < hop" by simp
  show ?thesis
  proof (cases "length a < frame_len")
    case True
    then have "length (map real_of_f32 a) < frame_len" by simp
    from frame_signal_short[OF hop this] frame_signal_f_short[OF hop True]
    show ?thesis by simp
  next
    case False
    then have le: "frame_len \<le> length (map real_of_f32 a)" by simp
    have n: "nat (1 + (int (length a) - int frame_len) div int hop)
           = Suc ((length a - frame_len) div hop)"
      using frame_count_int[OF le, of hop] by simp
    have nn: "\<not> (1 + (int (length a) - int frame_len) div int hop \<le> 0)"
      using frame_signal_n_frames[OF hop, of a frame_len] False by simp
    have in_range: "i + hop * t < length a"
      if "t < Suc ((length a - frame_len) div hop)" "i < frame_len" for i t
    proof -
      have "int t < 1 + (int (length (map real_of_f32 a)) - int frame_len) div int hop"
        using that(1) le by (simp add: frame_count_int)
      from frame_signal_in_range[OF hop le this that(2)] show ?thesis by simp
    qed
    have "map (\<lambda>t. map (\<lambda>i. map real_of_f32 a ! (i + hop * t)) [0..<frame_len])
              [0..<Suc ((length a - frame_len) div hop)]
        = map (map real_of_f32) (map (\<lambda>t. map (\<lambda>i. a ! (i + hop * t)) [0..<frame_len])
              [0..<Suc ((length a - frame_len) div hop)])"
      using in_range by (simp del: upt_Suc)
    then show ?thesis
      unfolding frame_signal_long[OF hop le] frame_signal_f_def Let_def
      using hop nn n by (simp del: upt_Suc)
  qed
qed

lemma finite_view_inverse:
  "list_all is_finite row \<Longrightarrow> map Finite (map real_of_f32 row) = row"
proof (induction row)
  case Nil
  then show ?case by simp
next
  case (Cons x row)
  then show ?case by (cases x) simp_all
qed

lemma engines_read_the_frames:
  assumes "frames_finite a"
  shows "\<exists>fr. frame_signal_f a FRAME_N HOP_N = Inr fr
           \<and> frame_signal (map real_of_f32 a) FRAME_N HOP_N = Inr (map (map real_of_f32) fr)
           \<and> map (map Finite) (map (map real_of_f32) fr) = fr"
proof -
  from assms obtain fr where
    fr: "frame_signal_f a FRAME_N HOP_N = Inr fr" "list_all (list_all is_finite) fr"
    by (auto simp: frames_finite_def split: sum.splits)
  have "map (map Finite) (map (map real_of_f32) fr) = fr"
    using fr(2) by (induction fr) (simp_all add: finite_view_inverse del: map_map)
  with fr(1) show ?thesis unfolding frame_signal_view by simp
qed

lemma f_pre_finite:
  assumes "c \<noteq> 0" "is_finite (f_sub x (f_mul (Finite c) y))"
  shows "f_sub x (f_mul (Finite c) y) = Finite (real_of_f32 x - c * real_of_f32 y)"
  using assms by (cases x; cases y) (auto simp: f_sub_def inf_of_sign_def split: if_splits)

lemma pre_emphasis_view:
  assumes "c \<noteq> 0" "a \<noteq> []"
  shows "\<exists>p q. pre_emphasis_f a c = Inr p \<and> pre_emphasis (map real_of_f32 a) c = Inr q
           \<and> length p = length a \<and> length q = length a
           \<and> (\<forall>n < length a. is_finite (p ! n) \<longrightarrow> p ! n = Finite (q ! n))"
proof -
  from assms(2) obtain x xs where a: "a = x # xs" by (cases a) auto
  define p where "p = x # map2 (\<lambda>u v. f_sub u (f_mul (Finite c) v)) xs (butlast a)"
  define q where "q = real_of_f32 x
      # map2 (\<lambda>u v. u - c * v) (map real_of_f32 xs) (butlast (map real_of_f32 a))"
  have P: "pre_emphasis_f a c = Inr p" unfolding pre_emphasis_f_def p_def a by simp
  have Q: "pre_emphasis (map real_of_f32 a) c = Inr q" unfolding pre_emphasis_def q_def a by simp
  have lp: "length p = length a" by (simp add: p_def a)
  have lq: "length q = length a" by (simp add: q_def a)
  have pt: "is_finite (p ! n) \<longrightarrow> p ! n = Finite (q ! n)" if "n < length a" for n
  proof (cases n)
    case 0
    show ?thesis unfolding 0 p_def q_def by (cases x) simp_all
  next
    case (Suc m)
    with that have m: "m < length xs" by (simp add: a)
    then have ma: "m < length (butlast a)" "m < length a" by (auto simp: a)
    have b: "butlast a ! m = a ! m" "butlast (map real_of_f32 a) ! m = real_of_f32 (a ! m)"
      using ma by (simp_all only: nth_butlast map_butlast[symmetric] nth_map length_map)
    have pn: "p ! n = f_sub (xs ! m) (f_mul (Finite c) (a ! m))"
      unfolding Suc p_def using m ma(1) b(1) by simp
    have qn: "q ! n = real_of_f32 (xs ! m) - c * real_of_f32 (a ! m)"
      unfolding Suc q_def using m ma(1) b(2) by simp
    show ?thesis unfolding pn qn using f_pre_finite[OF assms(1)] by blast
  qed
  from P Q lp lq pt show ?thesis by blast
qed

lemma frames_agree:
  assumes "length q = length p" "\<forall>n < length p. is_finite (p ! n) \<longrightarrow> p ! n = Finite (q ! n)"
    "frames_finite p"
  shows "frame_signal q FRAME_N HOP_N = frame_signal (map real_of_f32 p) FRAME_N HOP_N"
proof (cases "length p < FRAME_N")
  case True
  have hop: "0 < HOP_N" by (simp add: HOP_N_val)
  from True have "length q < FRAME_N" "length (map real_of_f32 p) < FRAME_N"
    using assms(1) by simp_all
  from frame_signal_short[OF hop this(1)] frame_signal_short[OF hop this(2)]
  show ?thesis by simp
next
  case False
  have hop: "0 < HOP_N" by (simp add: HOP_N_val)
  define k where "k = Suc ((length p - FRAME_N) div HOP_N)"
  from False have le: "FRAME_N \<le> length q" "FRAME_N \<le> length (map real_of_f32 p)"
    using assms(1) by simp_all
  have n: "nat (1 + (int (length p) - int FRAME_N) div int HOP_N) = k"
    using frame_count_int[OF le(2), of HOP_N] by (simp add: k_def)
  have nn: "\<not> (1 + (int (length p) - int FRAME_N) div int HOP_N \<le> 0)"
    using frame_signal_n_frames[OF hop, of p FRAME_N] False by simp
  have fp: "frame_signal_f p FRAME_N HOP_N
            = Inr (map (\<lambda>t. map (\<lambda>i. p ! (i + HOP_N * t)) [0..<FRAME_N]) [0..<k])"
    unfolding frame_signal_f_def Let_def using hop nn n by simp
  have in_range: "i + HOP_N * t < length p" if "t < k" "i < FRAME_N" for i t
  proof -
    have "int t < 1 + (int (length (map real_of_f32 p)) - int FRAME_N) div int HOP_N"
      using that(1) le(2) by (simp add: frame_count_int k_def)
    from frame_signal_in_range[OF hop le(2) this that(2)] show ?thesis by simp
  qed
  have fin: "is_finite (p ! (i + HOP_N * t))" if "t < k" "i < FRAME_N" for i t
    using assms(3) that unfolding frames_finite_def fp by (simp add: list_all_iff)
  have eq: "q ! (i + HOP_N * t) = map real_of_f32 p ! (i + HOP_N * t)"
    if "t < k" "i < FRAME_N" for i t
  proof -
    note r = in_range[OF that]
    from assms(2) r fin[OF that] have "p ! (i + HOP_N * t) = Finite (q ! (i + HOP_N * t))"
      by blast
    then show ?thesis using r by simp
  qed
  have "map (\<lambda>t. map (\<lambda>i. q ! (i + HOP_N * t)) [0..<FRAME_N]) [0..<k]
        = map (\<lambda>t. map (\<lambda>i. map real_of_f32 p ! (i + HOP_N * t)) [0..<FRAME_N]) [0..<k]"
    using eq by simp
  then show ?thesis
    unfolding frame_signal_long[OF hop le(1)] frame_signal_long[OF hop le(2)]
    using assms(1) by (simp add: k_def del: upt_Suc)
qed

lemma cepstral_engine_reads_the_frames:
  assumes "a \<noteq> []" "pre_emphasis_f a PRE_EMP = Inr p" "frames_finite p"
  shows "\<exists>fr. frame_signal_f p FRAME_N HOP_N = Inr fr
           \<and> mfcc_frames (map real_of_f32 a) = Inr (apply_window (map (map real_of_f32) fr))
           \<and> map (map Finite) (map (map real_of_f32) fr) = fr"
proof -
  have c: "PRE_EMP \<noteq> 0" by (simp add: PRE_EMP_def)
  from pre_emphasis_view[OF c assms(1)] assms(2) obtain q where
    q: "pre_emphasis (map real_of_f32 a) PRE_EMP = Inr q" "length p = length a"
       "length q = length a"
       "\<forall>n < length a. is_finite (p ! n) \<longrightarrow> p ! n = Finite (q ! n)"
    by auto
  have "frame_signal q FRAME_N HOP_N = frame_signal (map real_of_f32 p) FRAME_N HOP_N"
    by (rule frames_agree) (use q assms(3) in simp_all)
  moreover from engines_read_the_frames[OF assms(3)] obtain fr where
    fr: "frame_signal_f p FRAME_N HOP_N = Inr fr"
        "frame_signal (map real_of_f32 p) FRAME_N HOP_N = Inr (map (map real_of_f32) fr)"
        "map (map Finite) (map (map real_of_f32) fr) = fr"
    by blast
  ultimately have "mfcc_frames (map real_of_f32 a) = Inr (apply_window (map (map real_of_f32) fr))"
    by (simp add: mfcc_frames_def q(1))
  with fr(1,3) show ?thesis by blast
qed








section \<open>The frames each engine reads\<close>

















end
